theory Spec2Isabelle
  imports Main "HOL-Library.Word" "HOL-Library.List_Lexorder" "HOL-Library.AList"
    "HOL-Library.Multiset"
begin

section \<open>The curator of the Daring Divas collection (curator.js)\<close>

text \<open>
  The script enumerates every token of a contract, hashes each token's image, compares
  the hash with a table of master hashes and rebuilds the list of censored tokens. The
  list is written back to a Gist only when its keys differ from the keys of the list
  fetched at the start of the run.
\<close>

subsection \<open>Strings, errors\<close>

text \<open>
  A JavaScript string is a sequence of 16-bit code units. \<open>s[i]\<close> is the code unit at
  position \<open>i\<close>, and \<open>undefined\<close> when \<open>i\<close> is not a position of \<open>s\<close>; \<open>char_at\<close>
  returns \<open>None\<close> for \<open>undefined\<close>.
\<close>

type_synonym code_unit = "16 word"

type_synonym js_string = "code_unit list"

definition js :: "string \<Rightarrow> js_string" where
  \<comment> \<open>an ASCII literal as a JavaScript string\<close>
  "js s = map (\<lambda>c. of_nat (of_char c)) s"

definition char_at :: "js_string \<Rightarrow> nat \<Rightarrow> code_unit option" where
  "char_at s i = (if i < length s then Some (s ! i) else None)"

text \<open>
  What a JavaScript call can throw. The result of a call that may throw is a sum:
  \<open>Inl\<close> carries the thrown error, \<open>Inr\<close> the returned value.
\<close>

datatype js_error = TypeError | SyntaxError | RequestError | ImageError | FsError

subsection \<open>calculateHammingDistance\<close>

text \<open>
  \<^verbatim>\<open>
  function calculateHammingDistance(hash1, hash2) {
    let distance = 0;
    for (let i = 0; i < hash1.length; i++) {
      if (hash1[i] !== hash2[i]) { distance++; }
    }
    return distance;
  }
  \<close>
  Both arguments are strings: \<open>hash1\<close> is the \<open>pHash()\<close> of the token's image and
  \<open>hash2\<close> a value of master-hashes.json, which generate-hashes.js fills with the
  \<open>pHash()\<close> of each master image. The loop runs over the positions of \<open>hash1\<close> alone.
  The function has no \<open>throw\<close>, and indexing a string never throws, so every call
  returns.
\<close>

function hamming_loop :: "js_string \<Rightarrow> js_string \<Rightarrow> nat \<Rightarrow> nat \<Rightarrow> nat" where
  "hamming_loop hash1 hash2 i distance =
     (if i < length hash1
      then hamming_loop hash1 hash2 (i + 1)
             (if char_at hash1 i \<noteq> char_at hash2 i then distance + 1 else distance)
      else distance)"
  by pat_completeness auto
termination
  by (relation "measure (\<lambda>(hash1, hash2, i, distance). length hash1 - i)") auto

definition calculateHammingDistance :: "js_string \<Rightarrow> js_string \<Rightarrow> js_error + nat" where
  "calculateHammingDistance hash1 hash2 = Inr (hamming_loop hash1 hash2 0 0)"

subsection \<open>Objects\<close>

text \<open>
  An object is the list of its own properties in the order of their creation.
  \<open>Object.keys\<close> and \<open>for ... in\<close> enumerate the properties whose key is an array
  index (the canonical decimal string of an integer below \<open>2^32 - 1\<close>) in ascending
  numeric order first, and then the other properties in creation order.
\<close>

type_synonym 'v js_object = "(js_string \<times> 'v) list"

definition is_digit :: "code_unit \<Rightarrow> bool" where
  "is_digit c = (0x30 \<le> c \<and> c \<le> 0x39)"

definition decimal :: "js_string \<Rightarrow> nat" where
  "decimal k = foldl (\<lambda>n c. 10 * n + (unat c - 48)) 0 k"

definition is_array_index :: "js_string \<Rightarrow> bool" where
  "is_array_index k =
     (k \<noteq> [] \<and> list_all is_digit k \<and> (length k = 1 \<or> take 1 k \<noteq> [0x30]) \<and>
      decimal k < 2 ^ 32 - 1)"

definition own_properties :: "'v js_object \<Rightarrow> 'v js_object" where
  "own_properties obj =
     sort_key (\<lambda>p. decimal (fst p)) (filter (\<lambda>p. is_array_index (fst p)) obj) @
     filter (\<lambda>p. \<not> is_array_index (fst p)) obj"

definition Object_keys :: "'v js_object \<Rightarrow> js_string list" where
  "Object_keys obj = map fst (own_properties obj)"

subsection \<open>JSON.stringify of an array of strings\<close>

text \<open>
  \<open>JSON.stringify(keys)\<close> of an array of strings writes \<open>[\<close>, the quoted elements
  separated by commas, and \<open>]\<close>. QuoteJSONString reads the string by code points: a
  leading surrogate followed by a trailing surrogate is one code point and is copied, the
  seven characters of the escape table get a two-character escape, every other code unit
  below \<open>0x20\<close> and every lone surrogate is written \<open>\uXXXX\<close> with four lower-case
  hexadecimal digits, and everything else is copied.
\<close>

definition is_leading_surrogate :: "code_unit \<Rightarrow> bool" where
  "is_leading_surrogate c = (0xD800 \<le> c \<and> c \<le> 0xDBFF)"

definition is_trailing_surrogate :: "code_unit \<Rightarrow> bool" where
  "is_trailing_surrogate c = (0xDC00 \<le> c \<and> c \<le> 0xDFFF)"

definition hex_digit :: "nat \<Rightarrow> code_unit" where
  "hex_digit n = (if n < 10 then of_nat (48 + n) else of_nat (87 + n))"

definition UnicodeEscape :: "code_unit \<Rightarrow> js_string" where
  "UnicodeEscape c =
     [0x5C, 0x75, hex_digit (unat c div 4096), hex_digit (unat c div 256 mod 16),
      hex_digit (unat c div 16 mod 16), hex_digit (unat c mod 16)]"

definition escape_unit :: "code_unit \<Rightarrow> js_string" where
  "escape_unit c =
     (if c = 0x08 then [0x5C, 0x62]
      else if c = 0x09 then [0x5C, 0x74]
      else if c = 0x0A then [0x5C, 0x6E]
      else if c = 0x0C then [0x5C, 0x66]
      else if c = 0x0D then [0x5C, 0x72]
      else if c = 0x22 then [0x5C, 0x22]
      else if c = 0x5C then [0x5C, 0x5C]
      else if c < 0x20 \<or> is_leading_surrogate c \<or> is_trailing_surrogate c
        then UnicodeEscape c
      else [c])"

fun quote_units :: "js_string \<Rightarrow> js_string" where
  "quote_units [] = []"
| "quote_units [c] = escape_unit c"
| "quote_units (c # d # cs) =
     (if is_leading_surrogate c \<and> is_trailing_surrogate d then c # d # quote_units cs
      else escape_unit c @ quote_units (d # cs))"

definition QuoteJSONString :: "js_string \<Rightarrow> js_string" where
  "QuoteJSONString s = 0x22 # quote_units s @ [0x22]"

fun join_comma :: "js_string list \<Rightarrow> js_string" where
  "join_comma [] = []"
| "join_comma [s] = s"
| "join_comma (s # t # ts) = s @ 0x2C # join_comma (t # ts)"

definition JSON_stringify :: "js_string list \<Rightarrow> js_string" where
  "JSON_stringify keys = 0x5B # join_comma (map QuoteJSONString keys) @ [0x5D]"

subsection \<open>The comparison of the old and the new list\<close>

text \<open>
  \<^verbatim>\<open>
  const oldKeys = Object.keys(currentCensoredList).sort();
  const newKeys = Object.keys(newCensoredList).sort();
  if (JSON.stringify(oldKeys) !== JSON.stringify(newKeys)) { ... axios.patch ... }
  \<close>
  \<open>sort()\<close> without a comparator orders strings by their code units, a proper prefix
  first: the order of \<open>List_Lexorder\<close> over the unsigned order of words. The order is
  total, so the sorted array does not depend on the sorting algorithm.
\<close>

definition list_changed :: "'a js_object \<Rightarrow> 'b js_object \<Rightarrow> bool" where
  "list_changed currentCensoredList newCensoredList =
     (let oldKeys = sort (Object_keys currentCensoredList);
          newKeys = sort (Object_keys newCensoredList)
      in JSON_stringify oldKeys \<noteq> JSON_stringify newKeys)"

subsection \<open>The similarity check\<close>

text \<open>
  \<^verbatim>\<open>
  for (const masterImageName in masterHashes) {
    const masterHash = masterHashes[masterImageName];
    const distance = calculateHammingDistance(newHash, masterHash);
    if (distance <= SIMILARITY_THRESHOLD) {
      console.log(`Match found! Similar to '${masterImageName}'. Distance: ${distance}. ...`);
      newCensoredList[nft.tokenId] = true;
      break;
    }
  }
  \<close>
  \<open>find_match\<close> runs the loop over the properties of \<open>masterHashes\<close> in enumeration
  order and returns the name and the distance that the loop logs before it breaks, or
  \<open>None\<close> when the loop ends without a match.
\<close>

definition SIMILARITY_THRESHOLD :: nat where
  "SIMILARITY_THRESHOLD = 5"

fun find_match :: "js_string \<Rightarrow> js_string js_object \<Rightarrow> js_error + (js_string \<times> nat) option" where
  "find_match newHash [] = Inr None"
| "find_match newHash ((masterImageName, masterHash) # rest) =
     (case calculateHammingDistance newHash masterHash of
        Inl error \<Rightarrow> Inl error
      | Inr distance \<Rightarrow>
          if distance \<le> SIMILARITY_THRESHOLD then Inr (Some (masterImageName, distance))
          else find_match newHash rest)"

subsection \<open>One token\<close>

text \<open>
  A token as the contract iterator yields it, together with what the outside world
  answers while this token is evaluated: the response of \<open>axios.get(nft.tokenUri)\<close>, the
  \<open>pHash()\<close> of the image that \<open>Jimp.read(imageUrl)\<close> loads, whether the image file is
  already in minted-images, and the outcome of \<open>image.write\<close>. Every one of these calls
  is made at most once for a token. A value is falsy when it is \<open>undefined\<close> (\<open>None\<close>)
  or the empty string.
\<close>

record metadata =
  image_url :: "js_string option"

record metadata_response =
  response_data :: "metadata option"

record token =
  tokenId :: js_string
  tokenUri :: "js_string option"
  axios_get :: "js_error + metadata_response"
  pHash :: "js_error + js_string"
  existsSync :: bool
  image_write :: "js_error option"

definition falsy :: "js_string option \<Rightarrow> bool" where
  "falsy v = (v = None \<or> v = Some [])"

text \<open>
  \<open>newCensoredList[key] = true\<close>, for the object that \<open>const newCensoredList = {}\<close>
  creates. Its prototype is \<open>Object.prototype\<close>, whose only accessor property is
  \<open>__proto__\<close>: the assignment to that key calls the inherited setter, which ignores a
  value that is neither an object nor \<open>null\<close>, and no property is created. Every other
  key is either absent from the prototype chain or an inherited writable data property:
  the assignment overwrites the own property \<open>key\<close> where it stands, or appends it
  (\<open>AList.update\<close>).
\<close>

definition set_true :: "js_string \<Rightarrow> bool js_object \<Rightarrow> bool js_object" where
  "set_true key obj = (if key = js ''__proto__'' then obj else AList.update key True obj)"

text \<open>
  The body of the \<open>try\<close> block, in two parts. The first part runs from the check of
  \<open>nft.tokenUri\<close> to the saving of the image:
  \<^verbatim>\<open>
  if (!nft.tokenUri) { ...; continue; }
  const metadataResponse = await axios.get(nft.tokenUri);
  const imageUrl = metadataResponse.data.image;
  if (!imageUrl) { ...; continue; }
  const image = await Jimp.Jimp.read(imageUrl);
  const newHash = image.pHash();
  const imagePath = path.join(MINTED_IMAGES_DIR, `${nft.tokenId}.jpg`);
  if (!fs.existsSync(imagePath)) { await image.write(imagePath); ... }
  \<close>
  It throws (\<open>Inl\<close>), leaves the body with \<open>continue\<close> (\<open>Inr None\<close>), or reaches the
  similarity check with \<open>newHash\<close> (\<open>Inr (Some newHash)\<close>). The second part is the
  similarity check. \<open>evaluate\<close> returns the list after the body (\<open>Inr\<close>), or the error
  that the body throws.
\<close>

definition hash_live_image :: "token \<Rightarrow> js_error + js_string option" where
  "hash_live_image nft =
     (if falsy (tokenUri nft) then Inr None
      else case axios_get nft of
        Inl error \<Rightarrow> Inl error
      | Inr metadataResponse \<Rightarrow>
          (case response_data metadataResponse of
             None \<Rightarrow> Inl TypeError
           | Some data \<Rightarrow>
               if falsy (image_url data) then Inr None
               else case pHash nft of
                 Inl error \<Rightarrow> Inl error
               | Inr newHash \<Rightarrow>
                   (case (if existsSync nft then None else image_write nft) of
                      Some error \<Rightarrow> Inl error
                    | None \<Rightarrow> Inr (Some newHash))))"

definition evaluate ::
  "js_string js_object \<Rightarrow> token \<Rightarrow> bool js_object \<Rightarrow> js_error + bool js_object" where
  "evaluate masterHashes nft newCensoredList =
     (case hash_live_image nft of
        Inl error \<Rightarrow> Inl error
      | Inr None \<Rightarrow> Inr newCensoredList
      | Inr (Some newHash) \<Rightarrow>
          (case find_match newHash (own_properties masterHashes) of
             Inl error \<Rightarrow> Inl error
           | Inr None \<Rightarrow> Inr newCensoredList
           | Inr (Some found) \<Rightarrow> Inr (set_true (tokenId nft) newCensoredList)))"

text \<open>The \<open>catch\<close> logs the error and the loop goes on with the next token.\<close>

definition evaluate_nft ::
  "js_string js_object \<Rightarrow> token \<Rightarrow> bool js_object \<Rightarrow> bool js_object" where
  "evaluate_nft masterHashes nft newCensoredList =
     (case evaluate masterHashes nft newCensoredList of
        Inl error \<Rightarrow> newCensoredList
      | Inr updated \<Rightarrow> updated)"

fun evaluate_all ::
  "js_string js_object \<Rightarrow> token list \<Rightarrow> bool js_object \<Rightarrow> bool js_object" where
  "evaluate_all masterHashes [] newCensoredList = newCensoredList"
| "evaluate_all masterHashes (nft # allNfts) newCensoredList =
     evaluate_all masterHashes allNfts (evaluate_nft masterHashes nft newCensoredList)"

subsection \<open>JSON values\<close>

text \<open>
  What \<open>JSON.parse\<close> can return. The value of a number is never read.
  \<open>Object.keys(value)\<close> first converts \<open>value\<close> to an object (ToObject): \<open>null\<close>
  throws a TypeError, a boolean or a number gives an object without enumerable own
  properties, a string or an array gives an object whose enumerable own properties are
  the indices \<open>0\<close>, \<open>1\<close>, ... of its code units or elements, written in decimal, and an
  object is left as it is.
\<close>

datatype json_value =
    JSON_null
  | JSON_boolean bool
  | JSON_number
  | JSON_string js_string
  | JSON_array "json_value list"
  | JSON_object "(js_string \<times> json_value) list"

fun to_decimal :: "nat \<Rightarrow> js_string" where
  "to_decimal n =
     (if n < 10 then [of_nat (48 + n)] else to_decimal (n div 10) @ [of_nat (48 + n mod 10)])"

definition ToObject :: "json_value \<Rightarrow> js_error + json_value js_object" where
  "ToObject v =
     (case v of
        JSON_null \<Rightarrow> Inl TypeError
      | JSON_boolean b \<Rightarrow> Inr []
      | JSON_number \<Rightarrow> Inr []
      | JSON_string s \<Rightarrow> Inr (map (\<lambda>i. (to_decimal i, JSON_string [s ! i])) [0..<length s])
      | JSON_array xs \<Rightarrow> Inr (map (\<lambda>i. (to_decimal i, xs ! i)) [0..<length xs])
      | JSON_object properties \<Rightarrow> Inr properties)"

subsection \<open>getCurrentCensoredList\<close>

text \<open>
  \<^verbatim>\<open>
  try {
    const response = await axios.get(GIST_API_URL, ...);
    if (response.data.files[GIST_FILENAME]) {
      const content = response.data.files[GIST_FILENAME].content;
      return JSON.parse(content);
    }
    return {};
  } catch (error) { ...; return {}; }
  \<close>
  The response carries the files of the Gist by name (\<open>None\<close> when \<open>response.data\<close> has
  no \<open>files\<close>: indexing it throws a TypeError). \<open>JSON.parse\<close> is the library's: it is a
  parameter, and it throws a SyntaxError on \<open>undefined\<close>. \<open>fetch_censored_list\<close> is the
  \<open>try\<close> block, \<open>getCurrentCensoredList\<close> the function with its \<open>catch\<close>; \<open>{}\<close> is
  \<open>JSON_object []\<close>.
\<close>

record gist_file =
  content :: "js_string option"

record gist_response =
  files :: "(js_string \<rightharpoonup> gist_file) option"

definition GIST_FILENAME :: js_string where
  "GIST_FILENAME = js ''censored-list.json''"

definition fetch_censored_list ::
  "(js_string \<Rightarrow> js_error + json_value) \<Rightarrow> js_error + gist_response \<Rightarrow>
   js_error + json_value" where
  "fetch_censored_list JSON_parse gist_get =
     (case gist_get of
        Inl error \<Rightarrow> Inl error
      | Inr response \<Rightarrow>
          (case files response of
             None \<Rightarrow> Inl TypeError
           | Some gist_files \<Rightarrow>
               (case gist_files GIST_FILENAME of
                  None \<Rightarrow> Inr (JSON_object [])
                | Some file \<Rightarrow>
                    (case content file of
                       None \<Rightarrow> Inl SyntaxError
                     | Some text \<Rightarrow> JSON_parse text))))"

definition getCurrentCensoredList ::
  "(js_string \<Rightarrow> js_error + json_value) \<Rightarrow> js_error + gist_response \<Rightarrow> json_value" where
  "getCurrentCensoredList JSON_parse gist_get =
     (case fetch_censored_list JSON_parse gist_get of
        Inl error \<Rightarrow> JSON_object []
      | Inr list \<Rightarrow> list)"

subsection \<open>runCurator\<close>

text \<open>
  The outside world of one run: whether the minted-images directory exists and the
  outcome of \<open>fs.mkdirSync\<close>, the response of the Gist, the parser, the object that
  \<open>require('./master-hashes.json')\<close> returns, the tokens that the contract iterator
  yields (or the error it throws), and the outcome of the \<open>axios.patch\<close> request.
  A run ends with the rebuilt list (empty when the run stops before the loop), the list
  sent with \<open>axios.patch\<close> (\<open>None\<close> when no request is made) and the error that
  reaches the caller's \<open>catch\<close>, if any.
  \<^verbatim>\<open>
  if (!fs.existsSync(MINTED_IMAGES_DIR)) { fs.mkdirSync(MINTED_IMAGES_DIR); ... }
  const currentCensoredList = await getCurrentCensoredList();
  console.log(`Found ${Object.keys(currentCensoredList).length} tokens on the old list.`);
  const newCensoredList = {};
  const allNfts = [];
  for await (const nft of alchemy.nft.getNftsForContractIterator(...)) { allNfts.push(nft); }
  for (const nft of allNfts) { try { ... } catch (error) { ... } }
  const oldKeys = Object.keys(currentCensoredList).sort();
  const newKeys = Object.keys(newCensoredList).sort();
  if (JSON.stringify(oldKeys) !== JSON.stringify(newKeys)) { await axios.patch(...); }
  \<close>
  The first \<open>Object.keys(currentCensoredList)\<close>, in the log line, throws when the
  fetched document is \<open>null\<close>: the run stops there, outside every \<open>try\<close>. Otherwise
  \<open>previous\<close> is the object whose keys both calls of \<open>Object.keys\<close> enumerate.
\<close>

record world =
  dir_exists :: bool
  mkdirSync :: "js_error option"
  gist_get :: "js_error + gist_response"
  JSON_parse :: "js_string \<Rightarrow> js_error + json_value"
  master_hashes :: "js_string js_object"
  getNftsForContract :: "js_error + token list"
  axios_patch :: "js_error option"

record run =
  rebuilt :: "bool js_object"
  patched :: "bool js_object option"
  fatal :: "js_error option"

definition runCurator :: "world \<Rightarrow> run" where
  "runCurator w =
     (case (if dir_exists w then None else mkdirSync w) of
        Some error \<Rightarrow> \<lparr>rebuilt = [], patched = None, fatal = Some error\<rparr>
      | None \<Rightarrow>
          let currentCensoredList = getCurrentCensoredList (JSON_parse w) (gist_get w) in
          (case ToObject currentCensoredList of
             Inl error \<Rightarrow> \<lparr>rebuilt = [], patched = None, fatal = Some error\<rparr>
           | Inr previous \<Rightarrow>
               (case getNftsForContract w of
                  Inl error \<Rightarrow> \<lparr>rebuilt = [], patched = None, fatal = Some error\<rparr>
                | Inr allNfts \<Rightarrow>
                    let newCensoredList = evaluate_all (master_hashes w) allNfts [] in
                    if list_changed previous newCensoredList
                    then \<lparr>rebuilt = newCensoredList, patched = Some newCensoredList,
                           fatal = axios_patch w\<rparr>
                    else \<lparr>rebuilt = newCensoredList, patched = None, fatal = None\<rparr>)))"

subsection \<open>Reading a quoted string back\<close>

text \<open>
  The inverse of QuoteJSONString, used to show that \<open>JSON.stringify\<close> gives different
  texts for different arrays of strings: \<open>unquote_units\<close> reads the text after the
  opening quote up to the closing quote and returns the string and the rest of the text.
\<close>

definition hex_value :: "code_unit \<Rightarrow> nat" where
  "hex_value d = (if d \<le> 0x39 then unat d - 48 else unat d - 87)"

definition unescape :: "code_unit \<Rightarrow> code_unit" where
  "unescape e =
     (if e = 0x62 then 0x08 else if e = 0x74 then 0x09 else if e = 0x6E then 0x0A
      else if e = 0x66 then 0x0C else if e = 0x72 then 0x0D else e)"

definition unhex :: "code_unit \<Rightarrow> code_unit \<Rightarrow> code_unit \<Rightarrow> code_unit \<Rightarrow> code_unit" where
  "unhex h1 h2 h3 h4 =
     of_nat (4096 * hex_value h1 + 256 * hex_value h2 + 16 * hex_value h3 + hex_value h4)"

fun unquote_units :: "js_string \<Rightarrow> js_string \<times> js_string" where
  "unquote_units [] = ([], [])"
| "unquote_units (c # cs) =
     (if c = 0x22 then ([], cs)
      else if c = 0x5C then
        (case cs of
           [] \<Rightarrow> ([], [])
         | e # r \<Rightarrow>
             if e = 0x75 then
               (case r of
                  h1 # h2 # h3 # h4 # r' \<Rightarrow>
                    (unhex h1 h2 h3 h4 # fst (unquote_units r'), snd (unquote_units r'))
                | _ \<Rightarrow> ([], []))
             else (unescape e # fst (unquote_units r), snd (unquote_units r)))
      else (c # fst (unquote_units cs), snd (unquote_units cs)))"

subsection \<open>Example data\<close>

text \<open>
  A table of three master hashes, a token whose metadata and image are found and whose
  image has the given \<open>pHash()\<close>, and a world whose Gist holds the given document and
  whose calls all succeed; \<open>published_ids\<close> is the document that lists the given ids. Hashes are shortened to 16 characters.
\<close>

definition example_hashes :: "js_string js_object" where
  "example_hashes =
     [(js ''far.jpg'', js ''1111111111111111''),
      (js ''poseA.jpg'', js ''0000000000000000''),
      (js ''poseB.jpg'', js ''0000000000000111'')]"

definition example_token :: "js_string \<Rightarrow> js_error + js_string \<Rightarrow> token" where
  "example_token ident hash =
     \<lparr>tokenId = ident, tokenUri = Some (js ''ipfs://metadata/'' @ ident),
      axios_get = Inr \<lparr>response_data = Some \<lparr>image_url = Some (js ''ipfs://images/'' @ ident)\<rparr>\<rparr>,
      pHash = hash, existsSync = False, image_write = None\<rparr>"

definition published_ids :: "js_string list \<Rightarrow> json_value" where
  "published_ids ids = JSON_object (map (\<lambda>ident. (ident, JSON_boolean True)) ids)"

definition example_world :: "json_value \<Rightarrow> token list \<Rightarrow> world" where
  "example_world published tokens =
     \<lparr>dir_exists = True, mkdirSync = None,
      gist_get = Inr \<lparr>files = Some [GIST_FILENAME \<mapsto> \<lparr>content = Some (js ''published'')\<rparr>]\<rparr>,
      JSON_parse = (\<lambda>text. Inr published),
      master_hashes = example_hashes, getNftsForContract = Inr tokens, axios_patch = None\<rparr>"

section \<open>Properties\<close>

subsection \<open>Unfolding the definitions on concrete inputs\<close>

lemmas example_defs = example_hashes_def example_token_def example_world_def published_ids_def
  js_def GIST_FILENAME_def

lemmas token_defs = evaluate_nft_def evaluate_def set_true_def hash_live_image_def falsy_def
  own_properties_def
  is_array_index_def is_digit_def decimal_def Let_def calculateHammingDistance_def hamming_loop.simps char_at_def
  SIMILARITY_THRESHOLD_def

lemmas run_defs = runCurator_def getCurrentCensoredList_def fetch_censored_list_def ToObject_def
  list_changed_def Object_keys_def JSON_stringify_def QuoteJSONString_def escape_unit_def
  is_leading_surrogate_def is_trailing_surrogate_def

subsection \<open>The distance\<close>

declare hamming_loop.simps [simp del]

lemma hamming_loop_count:
  "hamming_loop a b i d =
     d + length (filter (\<lambda>j. char_at a j \<noteq> char_at b j) [i..<length a])"
proof (induction a b i d rule: hamming_loop.induct)
  case (1 hash1 hash2 i distance)
  show ?case
  proof (cases "i < length hash1")
    case True
    then have "[i..<length hash1] = i # [i + 1..<length hash1]"
      by (simp add: upt_conv_Cons)
    with True 1 show ?thesis
      by (subst hamming_loop.simps) simp
  next
    case False
    then show ?thesis
      by (subst hamming_loop.simps) simp
  qed
qed

lemma filter_upt_card:
  "length (filter P [i..<n]) = card {j. i \<le> j \<and> j < n \<and> P j}"
proof -
  have "card (set (filter P [i..<n])) = length (filter P [i..<n])"
    by (rule distinct_card) simp
  moreover have "set (filter P [i..<n]) = {j. i \<le> j \<and> j < n \<and> P j}"
    by auto
  ultimately show ?thesis by simp
qed

lemma hamming_card:
  "hamming_loop a b 0 0 = card {j. j < length a \<and> char_at a j \<noteq> char_at b j}"
  by (simp add: hamming_loop_count filter_upt_card)

lemma mismatch_split:
  assumes "length b \<le> length a"
  shows "{j. j < length a \<and> char_at a j \<noteq> char_at b j} =
         {j. j < length b \<and> a ! j \<noteq> b ! j} \<union> {length b..<length a}"
  using assms by (auto simp: char_at_def)

lemma hamming_longer:
  assumes "length b \<le> length a"
  shows "hamming_loop a b 0 0 = card {j. j < length b \<and> a ! j \<noteq> b ! j} + (length a - length b)"
proof -
  have "card ({j. j < length b \<and> a ! j \<noteq> b ! j} \<union> {length b..<length a}) =
        card {j. j < length b \<and> a ! j \<noteq> b ! j} + card {length b..<length a}"
    by (rule card_Un_disjoint) auto
  then show ?thesis
    by (simp add: hamming_card mismatch_split [OF assms])
qed

lemma hamming_shorter:
  assumes "length a \<le> length b"
  shows "hamming_loop a b 0 0 = card {j. j < length a \<and> a ! j \<noteq> b ! j}"
proof -
  have "{j. j < length a \<and> char_at a j \<noteq> char_at b j} = {j. j < length a \<and> a ! j \<noteq> b ! j}"
    using assms by (auto simp: char_at_def)
  then show ?thesis by (simp add: hamming_card)
qed

text \<open>
  Claim C8. For signatures \<open>a\<close> and \<open>b\<close> of equal length the distance is symmetric,
  the distance of a signature to itself is 0, and the distance is the number of positions
  at which \<open>a\<close> and \<open>b\<close> differ.
\<close>

theorem distance_equal_length:
  assumes "length a = length b"
  shows "calculateHammingDistance a b = calculateHammingDistance b a \<and>
         calculateHammingDistance a a = Inr 0 \<and>
         calculateHammingDistance a b = Inr (card {i. i < length a \<and> a ! i \<noteq> b ! i})"
proof -
  have ab: "hamming_loop a b 0 0 = card {i. i < length a \<and> a ! i \<noteq> b ! i}"
    using assms by (simp add: hamming_shorter)
  have ba: "hamming_loop b a 0 0 = card {i. i < length b \<and> b ! i \<noteq> a ! i}"
    using assms by (simp add: hamming_shorter)
  have "{i. i < length b \<and> b ! i \<noteq> a ! i} = {i. i < length a \<and> a ! i \<noteq> b ! i}"
    using assms by auto
  with ab ba have sym: "hamming_loop a b 0 0 = hamming_loop b a 0 0"
    by simp
  have "hamming_loop a a 0 0 = 0"
    by (simp add: hamming_shorter)
  with ab sym show ?thesis
    by (simp add: calculateHammingDistance_def)
qed

theorem distance_equal_length_witness:
  "length (js ''0110'') = length (js ''0011'') \<and>
   calculateHammingDistance (js ''0110'') (js ''0011'') =
     calculateHammingDistance (js ''0011'') (js ''0110'') \<and>
   calculateHammingDistance (js ''0110'') (js ''0110'') = Inr 0 \<and>
   calculateHammingDistance (js ''0110'') (js ''0011'') =
     Inr (card {i. i < length (js ''0110'') \<and> js ''0110'' ! i \<noteq> js ''0011'' ! i})"
proof -
  have h: "length (js ''0110'') = length (js ''0011'')"
    by (simp add: js_def)
  from h distance_equal_length [OF h] show ?thesis
    by (rule conjI)
qed

text \<open>
  Claim C10. \<open>calculateHammingDistance\<close> returns a number for every pair of strings,
  of equal length or not. When \<open>hash2\<close> is shorter than \<open>hash1\<close>, every position of
  \<open>hash1\<close> from \<open>length hash2\<close> on compares unequal to \<open>undefined\<close> and counts as a
  difference: the result is the number of differing positions of the overlap plus
  \<open>length hash1 - length hash2\<close>. On inputs of unequal length the two orders of the
  arguments give different results.
\<close>

theorem distance_total:
  "(\<exists>n. calculateHammingDistance hash1 hash2 = Inr n) \<and>
   (length hash2 < length hash1 \<longrightarrow>
      (\<forall>i. length hash2 \<le> i \<and> i < length hash1 \<longrightarrow> char_at hash1 i \<noteq> char_at hash2 i) \<and>
      calculateHammingDistance hash1 hash2 =
        Inr (card {i. i < length hash2 \<and> hash1 ! i \<noteq> hash2 ! i} + (length hash1 - length hash2))) \<and>
   (length hash1 \<noteq> length hash2 \<longrightarrow>
      calculateHammingDistance hash1 hash2 \<noteq> calculateHammingDistance hash2 hash1)"
proof (intro conjI impI allI)
  show "\<exists>n. calculateHammingDistance hash1 hash2 = Inr n"
    by (simp add: calculateHammingDistance_def)
next
  fix i
  assume "length hash2 < length hash1" "length hash2 \<le> i \<and> i < length hash1"
  then show "char_at hash1 i \<noteq> char_at hash2 i"
    by (simp add: char_at_def)
next
  assume "length hash2 < length hash1"
  then show "calculateHammingDistance hash1 hash2 =
    Inr (card {i. i < length hash2 \<and> hash1 ! i \<noteq> hash2 ! i} + (length hash1 - length hash2))"
    by (simp add: calculateHammingDistance_def hamming_longer)
next
  assume ne: "length hash1 \<noteq> length hash2"
  have asym: "hamming_loop s l 0 0 < hamming_loop l s 0 0" if "length s < length l" for s l
  proof -
    have "{j. j < length s \<and> l ! j \<noteq> s ! j} = {j. j < length s \<and> s ! j \<noteq> l ! j}"
      by auto
    with that show ?thesis
      by (simp add: hamming_longer hamming_shorter)
  qed
  from ne consider "length hash1 < length hash2" | "length hash2 < length hash1"
    by linarith
  then have "hamming_loop hash1 hash2 0 0 \<noteq> hamming_loop hash2 hash1 0 0"
  proof cases
    case 1
    from asym [OF 1] show ?thesis by simp
  next
    case 2
    from asym [OF 2] show ?thesis by simp
  qed
  then show "calculateHammingDistance hash1 hash2 \<noteq> calculateHammingDistance hash2 hash1"
    by (simp add: calculateHammingDistance_def)
qed

theorem distance_total_witness:
  "(\<exists>n. calculateHammingDistance (js ''0110'') (js ''01'') = Inr n) \<and>
   length (js ''01'') < length (js ''0110'') \<and>
   calculateHammingDistance (js ''0110'') (js ''01'') =
     Inr (card {i. i < length (js ''01'') \<and> js ''0110'' ! i \<noteq> js ''01'' ! i} +
          (length (js ''0110'') - length (js ''01''))) \<and>
   length (js ''0110'') \<noteq> length (js ''01'') \<and>
   calculateHammingDistance (js ''0110'') (js ''01'') \<noteq>
     calculateHammingDistance (js ''01'') (js ''0110'')"
proof -
  have h: "length (js ''01'') < length (js ''0110'')"
    by (simp add: js_def)
  have h': "length (js ''0110'') \<noteq> length (js ''01'')"
    by (simp add: js_def)
  show ?thesis
    using h h' distance_total [of "js ''0110''" "js ''01''"] by blast
qed

lemma zip_mismatch_card:
  "length (filter (\<lambda>(x, y). x \<noteq> y) (zip a b)) =
     card {j. j < min (length a) (length b) \<and> a ! j \<noteq> b ! j}"
proof -
  have "zip a b = map (\<lambda>j. (a ! j, b ! j)) [0..<min (length a) (length b)]"
    by (rule nth_equalityI) simp_all
  then have "length (filter (\<lambda>(x, y). x \<noteq> y) (zip a b)) =
             length (filter (\<lambda>j. a ! j \<noteq> b ! j) [0..<min (length a) (length b)])"
    by (simp add: filter_map comp_def)
  then show ?thesis by (simp add: filter_upt_card)
qed

text \<open>
  Claim C4 says that the distance of two signatures of unequal length raises a
  length-mismatch error, never truncates and never counts a position out of bounds. The
  function has no such check. For \<open>0110\<close> against \<open>01\<close> it returns 2, one for each
  position beyond the end of the second argument; for \<open>01\<close> against \<open>0110\<close> it returns
  0, the distance of the common prefix.
\<close>

theorem distance_length_mismatch_counterexample:
  "length (js ''0110'') \<noteq> length (js ''01'') \<and>
   calculateHammingDistance (js ''0110'') (js ''01'') = Inr 2 \<and>
   calculateHammingDistance (js ''01'') (js ''0110'') = Inr 0"
  by (simp add: calculateHammingDistance_def js_def char_at_def hamming_loop.simps)

text \<open>
  Claim C4, amended. For signatures of unequal length the distance function raises no
  error and returns a number: the number of differing positions of the common prefix
  when the first signature is the shorter one (the second is silently truncated), and
  that number plus one for every position of the first signature beyond the end of the
  second when the first is the longer one.
\<close>

theorem distance_length_mismatch:
  assumes "length a \<noteq> length b"
  shows "calculateHammingDistance a b =
           Inr (length (filter (\<lambda>(x, y). x \<noteq> y) (zip a b)) +
                (if length a < length b then 0 else length a - length b))"
proof (cases "length a < length b")
  case True
  then show ?thesis
    by (simp add: calculateHammingDistance_def hamming_shorter zip_mismatch_card min_def)
next
  case False
  with assms have "length b \<le> length a" by simp
  with False show ?thesis
    by (simp add: calculateHammingDistance_def hamming_longer zip_mismatch_card min_def)
qed

theorem distance_length_mismatch_witness:
  "length (js ''0110'') \<noteq> length (js ''01'') \<and>
   calculateHammingDistance (js ''0110'') (js ''01'') =
     Inr (length (filter (\<lambda>(x, y). x \<noteq> y) (zip (js ''0110'') (js ''01''))) +
          (if length (js ''0110'') < length (js ''01'') then 0
           else length (js ''0110'') - length (js ''01'')))"
proof -
  have h: "length (js ''0110'') \<noteq> length (js ''01'')"
    by (simp add: js_def)
  from h distance_length_mismatch [OF h] show ?thesis
    by (rule conjI)
qed

subsection \<open>JSON.stringify separates arrays of strings\<close>

lemma unat_small: "n < 65536 \<Longrightarrow> unat (of_nat n :: code_unit) = n"
  by (simp add: unat_of_nat)

lemma hex_value_digit: "n < 16 \<Longrightarrow> hex_value (hex_digit n) = n"
  by (simp add: hex_value_def hex_digit_def word_le_nat_alt unat_small del: of_nat_add of_nat_numeral)

lemma nibbles_aux:
  "n = 16 * q1 + r0 \<Longrightarrow> q1 = 16 * q2 + r1 \<Longrightarrow> q2 = 16 * q3 + r2 \<Longrightarrow>
   4096 * q3 + 256 * r2 + 16 * r1 + r0 = (n::nat)"
  by simp

lemma nibbles:
  "4096 * (n div 4096) + 256 * (n div 256 mod 16) + 16 * (n div 16 mod 16) + n mod 16 = (n::nat)"
proof (rule nibbles_aux)
  show "n = 16 * (n div 16) + n mod 16"
    by simp
  have "n div 256 = n div 16 div 16"
    by (simp add: div_mult2_eq [symmetric])
  then show "n div 16 = 16 * (n div 256) + n div 16 mod 16"
    by simp
  have "n div 4096 = n div 256 div 16"
    by (simp add: div_mult2_eq [symmetric])
  then show "n div 256 = 16 * (n div 4096) + n div 256 mod 16"
    by simp
qed


lemma unhex_escape: "unhex (hex_digit (unat c div 4096)) (hex_digit (unat c div 256 mod 16))
     (hex_digit (unat c div 16 mod 16)) (hex_digit (unat c mod 16)) = c"
proof -
  have "unat c < 65536"
    using unsigned_less [of c, where ?'a = nat] by simp
  then have "unat c div 4096 < 16"
    by simp
  then show ?thesis
    by (simp add: unhex_def hex_value_digit nibbles)
qed

lemma unquote_escape_unit:
  "unquote_units (escape_unit c @ rest) = (c # fst (unquote_units rest), snd (unquote_units rest))"
  by (simp add: escape_unit_def UnicodeEscape_def unhex_escape unescape_def)


lemma unquote_quote: "unquote_units (quote_units s @ 0x22 # r) = (s, r)"
proof (induction s rule: quote_units.induct)
  case 1
  show ?case by simp
next
  case (2 c)
  show ?case by (simp add: unquote_escape_unit)
next
  case (3 c d cs)
  show ?case
  proof (cases "is_leading_surrogate c \<and> is_trailing_surrogate d")
    case True
    then have "c \<noteq> 0x22" "c \<noteq> 0x5C" "d \<noteq> 0x22" "d \<noteq> 0x5C"
      by (auto simp: is_leading_surrogate_def is_trailing_surrogate_def)
    with True 3 show ?thesis by simp
  next
    case False
    then have "quote_units (c # d # cs) = escape_unit c @ quote_units (d # cs)"
      by (simp only: quote_units.simps if_False)
    with False 3 show ?thesis
      by (simp add: unquote_escape_unit del: quote_units.simps)
  qed
qed

lemma quote_cancel:
  assumes "QuoteJSONString s @ r = QuoteJSONString t @ r'"
  shows "s = t \<and> r = r'"
proof -
  from assms have "quote_units s @ 0x22 # r = quote_units t @ 0x22 # r'"
    by (simp add: QuoteJSONString_def)
  then have "unquote_units (quote_units s @ 0x22 # r) = unquote_units (quote_units t @ 0x22 # r')"
    by simp
  then show ?thesis
    by (simp add: unquote_quote)
qed

lemma join_comma_cancel:
  "join_comma (map QuoteJSONString xs) @ 0x5D # r = join_comma (map QuoteJSONString ys) @ 0x5D # r'
   \<Longrightarrow> xs = ys"
proof (induction xs arbitrary: ys)
  case Nil
  show ?case
  proof (cases ys)
    case Nil
    then show ?thesis by simp
  next
    case (Cons y ys')
    with Nil.prems show ?thesis
      by (cases ys') (simp_all add: QuoteJSONString_def)
  qed
next
  case (Cons x xs')
  show ?case
  proof (cases ys)
    case Nil
    with Cons.prems show ?thesis
      by (cases xs') (simp_all add: QuoteJSONString_def)
  next
    case ys: (Cons y ys')
    show ?thesis
    proof (cases xs')
      case Nil
      show ?thesis
      proof (cases ys')
        case Nil
        with \<open>xs' = []\<close> ys Cons.prems show ?thesis
          by (auto dest: quote_cancel)
      next
        case (Cons y' ys'')
        with \<open>xs' = []\<close> ys Cons.prems
        have "QuoteJSONString x @ 0x5D # r =
              QuoteJSONString y @ 0x2C # join_comma (map QuoteJSONString (y' # ys'')) @ 0x5D # r'"
          by simp
        from quote_cancel [OF this] show ?thesis by simp
      qed
    next
      case xs: (Cons x' xs'')
      show ?thesis
      proof (cases ys')
        case Nil
        with xs ys Cons.prems
        have "QuoteJSONString x @ 0x2C # join_comma (map QuoteJSONString (x' # xs'')) @ 0x5D # r =
              QuoteJSONString y @ 0x5D # r'"
          by simp
        from quote_cancel [OF this] show ?thesis by simp
      next
        case (Cons y' ys'')
        with xs ys Cons.prems
        have "QuoteJSONString x @ 0x2C # join_comma (map QuoteJSONString xs') @ 0x5D # r =
              QuoteJSONString y @ 0x2C # join_comma (map QuoteJSONString ys') @ 0x5D # r'"
          by simp
        from quote_cancel [OF this]
        have "x = y" and "join_comma (map QuoteJSONString xs') @ 0x5D # r =
                          join_comma (map QuoteJSONString ys') @ 0x5D # r'"
          by simp_all
        with Cons.IH [of ys'] ys show ?thesis by simp
      qed
    qed
  qed
qed

lemma JSON_stringify_inj: "JSON_stringify xs = JSON_stringify ys \<longleftrightarrow> xs = ys"
proof
  assume "JSON_stringify xs = JSON_stringify ys"
  then have "join_comma (map QuoteJSONString xs) @ 0x5D # [] =
             join_comma (map QuoteJSONString ys) @ 0x5D # []"
    by (simp add: JSON_stringify_def)
  then show "xs = ys" by (rule join_comma_cancel)
qed simp

subsection \<open>The comparison of the lists\<close>

lemma mset_own_properties: "mset (own_properties obj) = mset obj"
  by (simp add: own_properties_def)

lemma mset_Object_keys: "mset (Object_keys obj) = mset (map fst obj)"
  by (simp add: Object_keys_def mset_own_properties)

lemma sort_eq_iff_mset: "sort xs = sort ys \<longleftrightarrow> mset xs = mset ys"
proof
  assume "sort xs = sort ys"
  then have "mset (sort xs) = mset (sort ys)" by simp
  then show "mset xs = mset ys" by simp
next
  assume "mset xs = mset ys"
  then show "sort xs = sort ys"
    by (intro properties_for_sort) simp_all
qed

lemma list_changed_iff_mset:
  "list_changed a b \<longleftrightarrow> mset (map fst a) \<noteq> mset (map fst b)"
  by (simp add: list_changed_def JSON_stringify_inj sort_eq_iff_mset mset_Object_keys)

lemma keys_update_fresh:
  "k \<notin> fst ` set S \<Longrightarrow> map fst (AList.update k v S) = map fst S @ [k]"
  by (induction S) auto

lemma length_delete_less:
  "k \<in> fst ` set S \<Longrightarrow> length (AList.delete k S) < length S"
proof -
  assume "k \<in> fst ` set S"
  then obtain p where "p \<in> set S" "\<not> k \<noteq> fst p" by auto
  then have "length (filter (\<lambda>p. k \<noteq> fst p) S) < length S"
    by (rule length_filter_less)
  then show ?thesis
    by (simp add: AList.delete_eq case_prod_unfold)
qed

text \<open>
  Claim C1. The comparison sorts the keys of both lists and reports a change exactly
  when the two sorted key sequences differ. A list compared with itself is unchanged;
  two lists with the same keys in different orders of insertion are unchanged; for lists
  without repeated keys a change is reported exactly when the sets of keys differ; adding
  a key that is not in the list, or removing one that is, is a change.
\<close>

theorem changed_iff_sorted_keys_differ:
  "(list_changed previous current \<longleftrightarrow>
      sort (Object_keys previous) \<noteq> sort (Object_keys current)) \<and>
   \<not> list_changed S S \<and>
   (mset (map fst previous) = mset (map fst current) \<longrightarrow> \<not> list_changed previous current) \<and>
   (distinct (map fst previous) \<and> distinct (map fst current) \<longrightarrow>
      (list_changed previous current \<longleftrightarrow> fst ` set previous \<noteq> fst ` set current)) \<and>
   (k \<notin> fst ` set S \<longrightarrow> list_changed S (AList.update k v S)) \<and>
   (k \<in> fst ` set S \<longrightarrow> list_changed S (AList.delete k S))"
proof (intro conjI impI)
  show "list_changed previous current \<longleftrightarrow>
      sort (Object_keys previous) \<noteq> sort (Object_keys current)"
    by (simp add: list_changed_def JSON_stringify_inj)
  show "\<not> list_changed S S"
    by (simp add: list_changed_iff_mset)
  show "\<not> list_changed previous current" if "mset (map fst previous) = mset (map fst current)"
    using that by (simp add: list_changed_iff_mset)
  show "list_changed previous current \<longleftrightarrow> fst ` set previous \<noteq> fst ` set current"
    if "distinct (map fst previous) \<and> distinct (map fst current)"
  proof -
    from that have "set (map fst previous) = set (map fst current) \<longleftrightarrow>
        mset (map fst previous) = mset (map fst current)"
      by (intro set_eq_iff_mset_eq_distinct) simp_all
    then show ?thesis
      by (simp add: list_changed_iff_mset)
  qed
  show "list_changed S (AList.update k v S)" if "k \<notin> fst ` set S"
  proof -
    have "size (mset (map fst S)) \<noteq> size (mset (map fst (AList.update k v S)))"
      using that by (simp add: keys_update_fresh)
    then have "mset (map fst S) \<noteq> mset (map fst (AList.update k v S))"
      by metis
    then show ?thesis
      by (simp add: list_changed_iff_mset)
  qed
  show "list_changed S (AList.delete k S)" if "k \<in> fst ` set S"
  proof -
    have "size (mset (map fst S)) \<noteq> size (mset (map fst (AList.delete k S)))"
      using length_delete_less [OF that] by simp
    then have "mset (map fst S) \<noteq> mset (map fst (AList.delete k S))"
      by metis
    then show ?thesis
      by (simp add: list_changed_iff_mset)
  qed
qed

theorem changed_iff_sorted_keys_differ_witness:
  "mset (map fst [(js ''1'', True), (js ''2'', True)]) =
     mset (map fst [(js ''2'', True), (js ''1'', True)]) \<and>
   distinct (map fst [(js ''1'', True), (js ''2'', True)]) \<and>
   distinct (map fst [(js ''2'', True), (js ''1'', True)]) \<and>
   fst ` set [(js ''1'', True), (js ''2'', True)] = fst ` set [(js ''2'', True), (js ''1'', True)] \<and>
   \<not> list_changed [(js ''1'', True), (js ''2'', True)] [(js ''2'', True), (js ''1'', True)] \<and>
   js ''3'' \<notin> fst ` set [(js ''1'', True), (js ''2'', True)] \<and>
   list_changed [(js ''1'', True), (js ''2'', True)]
     (AList.update (js ''3'') True [(js ''1'', True), (js ''2'', True)]) \<and>
   AList.update (js ''3'') True [(js ''1'', True), (js ''2'', True)] =
     [(js ''1'', True), (js ''2'', True), (js ''3'', True)] \<and>
   js ''2'' \<in> fst ` set [(js ''1'', True), (js ''2'', True)] \<and>
   list_changed [(js ''1'', True), (js ''2'', True)]
     (AList.delete (js ''2'') [(js ''1'', True), (js ''2'', True)])"
proof -
  let ?P = "[(js ''1'', True), (js ''2'', True)]"
  let ?C = "[(js ''2'', True), (js ''1'', True)]"
  have h1: "mset (map fst ?P) = mset (map fst ?C)"
    by (simp add: js_def)
  have h2: "distinct (map fst ?P) \<and> distinct (map fst ?C)"
    by (simp add: js_def)
  have h3: "fst ` set ?P = fst ` set ?C"
    by (auto simp: js_def)
  have h4: "js ''3'' \<notin> fst ` set ?P"
    by (simp add: js_def)
  have h5: "js ''2'' \<in> fst ` set ?P"
    by (simp add: js_def)
  have h6: "AList.update (js ''3'') True ?P = [(js ''1'', True), (js ''2'', True), (js ''3'', True)]"
    by (simp add: js_def)
  from changed_iff_sorted_keys_differ [of ?P ?C ?P "js ''3''" True] h1 h4
  have c1: "\<not> list_changed ?P ?C" and c2: "list_changed ?P (AList.update (js ''3'') True ?P)"
    by blast+
  from changed_iff_sorted_keys_differ [of ?P ?C ?P "js ''2''" True] h5
  have c3: "list_changed ?P (AList.delete (js ''2'') ?P)"
    by blast
  from h1 h2 h3 h4 h5 h6 c1 c2 c3 show ?thesis
    by blast
qed

subsection \<open>The similarity check\<close>

lemma find_match_None_iff:
  "find_match newHash refs = Inr None \<longleftrightarrow>
     (\<forall>p\<in>set refs. SIMILARITY_THRESHOLD < hamming_loop newHash (snd p) 0 0)"
  by (induction refs) (auto simp: calculateHammingDistance_def split: if_splits)

lemma find_match_skip:
  "\<forall>p\<in>set before. SIMILARITY_THRESHOLD < hamming_loop newHash (snd p) 0 0 \<Longrightarrow>
   find_match newHash (before @ rest) = find_match newHash rest"
  by (induction before) (auto simp: calculateHammingDistance_def)

lemma find_match_not_Inl: "find_match newHash refs \<noteq> Inl e"
  by (induction refs) (auto simp: calculateHammingDistance_def split: if_splits)

lemma set_own_properties: "set (own_properties obj) = set obj"
  using mset_own_properties [of obj] by (metis set_mset_mset)

text \<open>
  Claim C2. When the references before \<open>name\<close> in the enumeration order of the table are
  all beyond the threshold and \<open>name\<close> is within it, the check matches \<open>name\<close> and
  stops: the result is the same whatever references follow, also when one of them is
  at an equal or smaller distance.
\<close>

theorem first_match_wins:
  assumes "own_properties masterHashes = before @ (name, masterHash) # later"
    and "\<forall>(n, h)\<in>set before. \<forall>e. calculateHammingDistance newHash h = Inr e \<longrightarrow> SIMILARITY_THRESHOLD < e"
    and "calculateHammingDistance newHash masterHash = Inr distance"
    and "distance \<le> SIMILARITY_THRESHOLD"
  shows "find_match newHash (own_properties masterHashes) = Inr (Some (name, distance)) \<and>
         (\<forall>others. find_match newHash (before @ (name, masterHash) # others) =
                    find_match newHash (own_properties masterHashes))"
proof -
  from assms(2) have far: "\<forall>p\<in>set before. SIMILARITY_THRESHOLD < hamming_loop newHash (snd p) 0 0"
    by (auto simp: calculateHammingDistance_def)
  have "find_match newHash (before @ (name, masterHash) # others) = Inr (Some (name, distance))"
    for others
    using assms(3,4) by (simp add: find_match_skip [OF far])
  then show ?thesis
    by (simp add: assms(1))
qed

theorem first_match_wins_witness:
  "own_properties example_hashes =
     [(js ''far.jpg'', js ''1111111111111111'')] @
     (js ''poseA.jpg'', js ''0000000000000000'') # [(js ''poseB.jpg'', js ''0000000000000111'')] \<and>
   calculateHammingDistance (js ''0000000000011111'') (js ''1111111111111111'') = Inr 11 \<and>
   calculateHammingDistance (js ''0000000000011111'') (js ''0000000000000000'') = Inr 5 \<and>
   calculateHammingDistance (js ''0000000000011111'') (js ''0000000000000111'') = Inr 2 \<and>
   find_match (js ''0000000000011111'') (own_properties example_hashes) =
     Inr (Some (js ''poseA.jpg'', 5)) \<and>
   find_match (js ''0000000000011111'')
     ([(js ''far.jpg'', js ''1111111111111111'')] @ (js ''poseA.jpg'', js ''0000000000000000'') # []) =
     find_match (js ''0000000000011111'') (own_properties example_hashes)"
proof -
  let ?h = "js ''0000000000011111''"
  let ?before = "[(js ''far.jpg'', js ''1111111111111111'')]"
  let ?later = "[(js ''poseB.jpg'', js ''0000000000000111'')]"
  have own: "own_properties example_hashes =
      ?before @ (js ''poseA.jpg'', js ''0000000000000000'') # ?later"
    by (simp add: example_defs token_defs)
  have far: "calculateHammingDistance ?h (js ''1111111111111111'') = Inr 11"
    by (simp add: example_defs token_defs)
  have a: "calculateHammingDistance ?h (js ''0000000000000000'') = Inr 5"
    by (simp add: example_defs token_defs)
  have b: "calculateHammingDistance ?h (js ''0000000000000111'') = Inr 2"
    by (simp add: example_defs token_defs)
  have before: "\<forall>(n, h)\<in>set ?before. \<forall>e. calculateHammingDistance ?h h = Inr e \<longrightarrow>
      SIMILARITY_THRESHOLD < e"
    using far by (simp add: SIMILARITY_THRESHOLD_def)
  have "(5::nat) \<le> SIMILARITY_THRESHOLD"
    by (simp add: SIMILARITY_THRESHOLD_def)
  from first_match_wins [OF own before a this] own far a b show ?thesis
    by blast
qed

text \<open>
  Claim C3. The check finds no match exactly when the distance to every reference
  exceeds the threshold, and then the token is not added to the list; after a match the
  assignment \<open>newCensoredList[nft.tokenId] = true\<close> is made, which adds the token id
  (every id but \<open>__proto__\<close>, for which the assignment creates no property). The
  threshold is 5 and the comparison is inclusive: a distance equal to the threshold is
  a match, a distance of the threshold plus one is not.
\<close>

theorem no_match_iff_all_exceed:
  "(find_match newHash (own_properties masterHashes) = Inr None \<longleftrightarrow>
      (\<forall>(name, masterHash)\<in>set masterHashes.
         \<forall>d. calculateHammingDistance newHash masterHash = Inr d \<longrightarrow> SIMILARITY_THRESHOLD < d)) \<and>
   (hash_live_image nft = Inr (Some newHash) \<longrightarrow>
      (if find_match newHash (own_properties masterHashes) = Inr None
       then evaluate_nft masterHashes nft newCensoredList = newCensoredList
       else evaluate_nft masterHashes nft newCensoredList =
              (if tokenId nft = js ''__proto__'' then newCensoredList
               else AList.update (tokenId nft) True newCensoredList))) \<and>
   SIMILARITY_THRESHOLD = 5 \<and>
   (calculateHammingDistance newHash h = Inr SIMILARITY_THRESHOLD \<longrightarrow>
      find_match newHash [(n, h)] = Inr (Some (n, 5))) \<and>
   (calculateHammingDistance newHash h = Inr (SIMILARITY_THRESHOLD + 1) \<longrightarrow>
      find_match newHash [(n, h)] = Inr None)"
proof (intro conjI impI)
  show "find_match newHash (own_properties masterHashes) = Inr None \<longleftrightarrow>
      (\<forall>(name, masterHash)\<in>set masterHashes.
         \<forall>d. calculateHammingDistance newHash masterHash = Inr d \<longrightarrow> SIMILARITY_THRESHOLD < d)"
    by (auto simp: find_match_None_iff set_own_properties calculateHammingDistance_def)
  show "if find_match newHash (own_properties masterHashes) = Inr None
       then evaluate_nft masterHashes nft newCensoredList = newCensoredList
       else evaluate_nft masterHashes nft newCensoredList =
              (if tokenId nft = js ''__proto__'' then newCensoredList
               else AList.update (tokenId nft) True newCensoredList)"
    if "hash_live_image nft = Inr (Some newHash)"
    using that find_match_not_Inl [of newHash "own_properties masterHashes"]
    by (auto simp: evaluate_nft_def evaluate_def set_true_def split: sum.splits option.splits)
  show "SIMILARITY_THRESHOLD = 5"
    by (simp add: SIMILARITY_THRESHOLD_def)
  show "find_match newHash [(n, h)] = Inr (Some (n, 5))"
    if "calculateHammingDistance newHash h = Inr SIMILARITY_THRESHOLD"
    using that by (simp add: SIMILARITY_THRESHOLD_def)
  show "find_match newHash [(n, h)] = Inr None"
    if "calculateHammingDistance newHash h = Inr (SIMILARITY_THRESHOLD + 1)"
    using that by simp
qed

theorem no_match_iff_all_exceed_witness:
  "find_match (js ''0000111111111000'') (own_properties example_hashes) = Inr None \<and>
   hash_live_image (example_token (js ''7'') (Inr (js ''0000111111111000''))) =
     Inr (Some (js ''0000111111111000'')) \<and>
   evaluate_nft example_hashes (example_token (js ''7'') (Inr (js ''0000111111111000''))) [] = [] \<and>
   find_match (js ''0000000000111000'') (own_properties example_hashes) \<noteq> Inr None \<and>
   evaluate_nft example_hashes (example_token (js ''5'') (Inr (js ''0000000000111000''))) [] =
     [(js ''5'', True)] \<and>
   evaluate_nft example_hashes (example_token (js ''__proto__'') (Inr (js ''0000000000111000''))) [] =
     [] \<and>
   SIMILARITY_THRESHOLD = 5 \<and>
   calculateHammingDistance (js ''0000000000011111'') (js ''0000000000000000'') =
     Inr SIMILARITY_THRESHOLD \<and>
   find_match (js ''0000000000011111'') [(js ''poseA.jpg'', js ''0000000000000000'')] =
     Inr (Some (js ''poseA.jpg'', 5)) \<and>
   calculateHammingDistance (js ''0000000000111111'') (js ''0000000000000000'') =
     Inr (SIMILARITY_THRESHOLD + 1) \<and>
   find_match (js ''0000000000111111'') [(js ''poseA.jpg'', js ''0000000000000000'')] = Inr None"
proof -
  let ?t = "example_token (js ''7'') (Inr (js ''0000111111111000''))"
  let ?t5 = "example_token (js ''5'') (Inr (js ''0000000000111000''))"
  let ?tp = "example_token (js ''__proto__'') (Inr (js ''0000000000111000''))"
  have far: "\<forall>(name, masterHash)\<in>set example_hashes.
      \<forall>d. calculateHammingDistance (js ''0000111111111000'') masterHash = Inr d \<longrightarrow>
        SIMILARITY_THRESHOLD < d"
    by (simp add: example_defs token_defs)
  have live: "hash_live_image ?t = Inr (Some (js ''0000111111111000''))"
    by (simp add: example_defs token_defs)
  have live5: "hash_live_image ?t5 = Inr (Some (js ''0000000000111000''))"
    and livep: "hash_live_image ?tp = Inr (Some (js ''0000000000111000''))"
    by (simp_all add: example_defs token_defs)
  have near: "find_match (js ''0000000000111000'') (own_properties example_hashes) \<noteq> Inr None"
    by (simp add: example_defs token_defs)
  have id5: "tokenId ?t5 \<noteq> js ''__proto__''" and idp: "tokenId ?tp = js ''__proto__''"
    by (simp_all add: example_defs)
  have five: "calculateHammingDistance (js ''0000000000011111'') (js ''0000000000000000'') =
      Inr SIMILARITY_THRESHOLD"
    by (simp add: example_defs token_defs)
  have six: "calculateHammingDistance (js ''0000000000111111'') (js ''0000000000000000'') =
      Inr (SIMILARITY_THRESHOLD + 1)"
    by (simp add: example_defs token_defs)
  note t1 = no_match_iff_all_exceed [of "js ''0000111111111000''" example_hashes ?t "[]"
      "js ''0000000000000000''" "js ''poseA.jpg''"]
  note t2 = no_match_iff_all_exceed [of "js ''0000000000011111''" example_hashes ?t "[]"
      "js ''0000000000000000''" "js ''poseA.jpg''"]
  note t3 = no_match_iff_all_exceed [of "js ''0000000000111111''" example_hashes ?t "[]"
      "js ''0000000000000000''" "js ''poseA.jpg''"]
  note t4 = no_match_iff_all_exceed [of "js ''0000000000111000''" example_hashes ?t5 "[]"
      "js ''0000000000000000''" "js ''poseA.jpg''"]
  note t5 = no_match_iff_all_exceed [of "js ''0000000000111000''" example_hashes ?tp "[]"
      "js ''0000000000000000''" "js ''poseA.jpg''"]
  from t1 far have none: "find_match (js ''0000111111111000'') (own_properties example_hashes) = Inr None"
    by blast
  with t1 live have e7: "evaluate_nft example_hashes ?t [] = []"
    by simp
  from t4 live5 near id5 have "evaluate_nft example_hashes ?t5 [] = AList.update (tokenId ?t5) True []"
    by simp
  then have e5: "evaluate_nft example_hashes ?t5 [] = [(js ''5'', True)]"
    by (simp add: example_token_def)
  from t5 livep near idp have ep: "evaluate_nft example_hashes ?tp [] = []"
    by simp
  from t2 five
  have m5: "find_match (js ''0000000000011111'') [(js ''poseA.jpg'', js ''0000000000000000'')] =
     Inr (Some (js ''poseA.jpg'', 5))"
    by blast
  from t3 six
  have m6: "find_match (js ''0000000000111111'') [(js ''poseA.jpg'', js ''0000000000000000'')] = Inr None"
    by blast
  from t1 have thr: "SIMILARITY_THRESHOLD = 5"
    by blast
  from none live e7 near e5 ep thr five m5 six m6 show ?thesis
    by (intro conjI)
qed

subsection \<open>The run\<close>

lemma runCurator_aborts:
  "\<not> dir_exists w \<Longrightarrow> mkdirSync w = Some e \<Longrightarrow>
   runCurator w = \<lparr>rebuilt = [], patched = None, fatal = Some e\<rparr>"
  by (simp add: runCurator_def)

lemma runCurator_null:
  "dir_exists w \<or> mkdirSync w = None \<Longrightarrow>
   ToObject (getCurrentCensoredList (JSON_parse w) (gist_get w)) = Inl e \<Longrightarrow>
   runCurator w = \<lparr>rebuilt = [], patched = None, fatal = Some e\<rparr>"
  by (auto simp: runCurator_def)

lemma runCurator_no_tokens:
  "dir_exists w \<or> mkdirSync w = None \<Longrightarrow>
   ToObject (getCurrentCensoredList (JSON_parse w) (gist_get w)) = Inr previous \<Longrightarrow>
   getNftsForContract w = Inl e \<Longrightarrow>
   runCurator w = \<lparr>rebuilt = [], patched = None, fatal = Some e\<rparr>"
  by (auto simp: runCurator_def)

lemma runCurator_completes:
  "dir_exists w \<or> mkdirSync w = None \<Longrightarrow>
   ToObject (getCurrentCensoredList (JSON_parse w) (gist_get w)) = Inr previous \<Longrightarrow>
   getNftsForContract w = Inr allNfts \<Longrightarrow>
   runCurator w =
     (if list_changed previous (evaluate_all (master_hashes w) allNfts [])
      then \<lparr>rebuilt = evaluate_all (master_hashes w) allNfts [],
             patched = Some (evaluate_all (master_hashes w) allNfts []), fatal = axios_patch w\<rparr>
      else \<lparr>rebuilt = evaluate_all (master_hashes w) allNfts [], patched = None, fatal = None\<rparr>)"
  by (auto simp: runCurator_def Let_def)

lemma runCurator_cases:
  obtains (mkdir) e where "\<not> dir_exists w" "mkdirSync w = Some e"
  | (null) e where "dir_exists w \<or> mkdirSync w = None"
      "ToObject (getCurrentCensoredList (JSON_parse w) (gist_get w)) = Inl e"
  | (iterator) previous e where "dir_exists w \<or> mkdirSync w = None"
      "ToObject (getCurrentCensoredList (JSON_parse w) (gist_get w)) = Inr previous"
      "getNftsForContract w = Inl e"
  | (completes) previous allNfts where "dir_exists w \<or> mkdirSync w = None"
      "ToObject (getCurrentCensoredList (JSON_parse w) (gist_get w)) = Inr previous"
      "getNftsForContract w = Inr allNfts"
  by (cases "dir_exists w"; cases "mkdirSync w";
      cases "ToObject (getCurrentCensoredList (JSON_parse w) (gist_get w))";
      cases "getNftsForContract w") auto

lemma evaluate_all_append:
  "evaluate_all masterHashes (xs @ ys) l = evaluate_all masterHashes ys (evaluate_all masterHashes xs l)"
  by (induction xs arbitrary: l) simp_all

lemma evaluate_throws_early: "evaluate masterHashes nft l = Inl e \<Longrightarrow> hash_live_image nft = Inl e"
  using find_match_not_Inl
  by (auto simp: evaluate_def split: sum.splits option.splits)

lemma keys_evaluate_nft:
  "fst ` set (evaluate_nft masterHashes nft l) =
     (if tokenId nft \<noteq> js ''__proto__'' \<and>
         (\<exists>newHash found. hash_live_image nft = Inr (Some newHash) \<and>
           find_match newHash (own_properties masterHashes) = Inr (Some found))
      then insert (tokenId nft) (fst ` set l) else fst ` set l)"
  by (auto simp: evaluate_nft_def evaluate_def set_true_def dom_update
      split: sum.splits option.splits)

lemma keys_evaluate_all:
  "fst ` set (evaluate_all masterHashes allNfts l) =
     fst ` set l \<union>
     {tokenId nft |nft. nft \<in> set allNfts \<and> tokenId nft \<noteq> js ''__proto__'' \<and>
        (\<exists>newHash found. hash_live_image nft = Inr (Some newHash) \<and>
           find_match newHash (own_properties masterHashes) = Inr (Some found))}"
proof (induction allNfts arbitrary: l)
  case Nil
  show ?case by simp
next
  case (Cons nft allNfts)
  show ?case
    unfolding evaluate_all.simps Cons.IH keys_evaluate_nft by auto
qed

lemma distinct_evaluate_all:
  "distinct (map fst l) \<Longrightarrow> distinct (map fst (evaluate_all masterHashes allNfts l))"
proof (induction allNfts arbitrary: l)
  case Nil
  then show ?case by simp
next
  case (Cons nft allNfts)
  from Cons.prems have "distinct (map fst (evaluate_nft masterHashes nft l))"
    by (auto simp: evaluate_nft_def evaluate_def set_true_def distinct_update
        split: sum.splits option.splits)
  then show ?case
    by (simp add: Cons.IH)
qed

lemma list_changed_key_missing:
  assumes "k \<in> fst ` set previous" and "k \<notin> fst ` set current"
  shows "list_changed previous current"
proof -
  from assms have "set (map fst previous) \<noteq> set (map fst current)"
    by auto
  then have "mset (map fst previous) \<noteq> mset (map fst current)"
    by (metis set_mset_mset)
  then show ?thesis
    by (simp add: list_changed_iff_mset)
qed

lemma example_published:
  "getCurrentCensoredList (JSON_parse (example_world published tokens))
     (gist_get (example_world published tokens)) = published"
  by (simp add: example_world_def getCurrentCensoredList_def fetch_censored_list_def)

lemma example_ToObject:
  "ToObject (getCurrentCensoredList (JSON_parse (example_world (published_ids ids) tokens))
     (gist_get (example_world (published_ids ids) tokens))) =
   Inr (map (\<lambda>ident. (ident, JSON_boolean True)) ids)"
  by (simp add: example_published published_ids_def ToObject_def)

lemma example_A:
  "runCurator (example_world (published_ids [js ''5''])
     [example_token (js ''5'') (Inr (js ''0000000000111000'')),
      example_token (js ''7'') (Inr (js ''0000111111111000''))]) =
   \<lparr>rebuilt = [(js ''5'', True)], patched = None, fatal = None\<rparr>"
  by (simp add: example_defs token_defs run_defs)

lemma example_B:
  "runCurator ((example_world (published_ids [])
       [example_token (js ''12'') (Inr (js ''0000000000000000''))])
     \<lparr>gist_get := Inl RequestError\<rparr>) =
   \<lparr>rebuilt = [(js ''12'', True)], patched = Some [(js ''12'', True)], fatal = None\<rparr>"
  by (simp add: example_defs token_defs run_defs)

lemma example_C:
  "runCurator (example_world (published_ids [js ''9''])
     [(example_token (js ''9'') (Inr (js ''0000000000000000''))) \<lparr>axios_get := Inl RequestError\<rparr>]) =
   \<lparr>rebuilt = [], patched = Some [], fatal = None\<rparr>"
  by (simp add: example_defs token_defs run_defs)

lemma example_null:
  "runCurator (example_world JSON_null
     [example_token (js ''12'') (Inr (js ''0000000000000000''))]) =
   \<lparr>rebuilt = [], patched = None, fatal = Some TypeError\<rparr>"
  by (simp add: example_defs token_defs run_defs)

text \<open>
  Claim C5. When the \<open>try\<close> block throws for one token (with string master hashes the
  similarity check cannot throw, so the error comes from resolving the metadata, from
  reading or hashing the image, or from saving it), the \<open>catch\<close> leaves the list as it
  was and the loop goes on with the tokens that follow, from the list that the tokens
  before had built. After the loop the list holds the keys it had at the start and the
  ids of the matched tokens before and after the failed one. The error does not reach
  the caller: a run that has fetched a list other than \<open>null\<close> ends with that rebuilt
  list, and with no error unless \<open>axios.patch\<close> fails. The whole run is the run of the
  enumeration without this token.
\<close>

theorem failed_token_is_skipped:
  assumes "evaluate masterHashes nft l' = Inl e"
  shows "hash_live_image nft = Inl e \<and>
         evaluate_nft masterHashes nft l = l \<and>
         evaluate_all masterHashes (before @ nft # after) l =
           evaluate_all masterHashes after (evaluate_all masterHashes before l) \<and>
         fst ` set (evaluate_all masterHashes (before @ nft # after) l) =
           fst ` set l \<union>
           {tokenId t |t. t \<in> set before \<union> set after \<and> tokenId t \<noteq> js ''__proto__'' \<and>
              (\<exists>newHash found. hash_live_image t = Inr (Some newHash) \<and>
                 find_match newHash (own_properties masterHashes) = Inr (Some found))} \<and>
         (getNftsForContract w = Inr (before @ nft # after) \<longrightarrow> master_hashes w = masterHashes \<longrightarrow>
            runCurator w = runCurator (w\<lparr>getNftsForContract := Inr (before @ after)\<rparr>) \<and>
            ((dir_exists w \<or> mkdirSync w = None) \<longrightarrow>
             ToObject (getCurrentCensoredList (JSON_parse w) (gist_get w)) = Inr previous \<longrightarrow>
               fst ` set (rebuilt (runCurator w)) =
                 {tokenId t |t. t \<in> set before \<union> set after \<and> tokenId t \<noteq> js ''__proto__'' \<and>
                    (\<exists>newHash found. hash_live_image t = Inr (Some newHash) \<and>
                       find_match newHash (own_properties masterHashes) = Inr (Some found))} \<and>
               fatal (runCurator w) =
                 (if list_changed previous (rebuilt (runCurator w)) then axios_patch w else None)))"
proof -
  let ?ids = "{tokenId t |t. t \<in> set before \<union> set after \<and> tokenId t \<noteq> js ''__proto__'' \<and>
      (\<exists>newHash found. hash_live_image t = Inr (Some newHash) \<and>
         find_match newHash (own_properties masterHashes) = Inr (Some found))}"
  from assms have early: "hash_live_image nft = Inl e"
    by (rule evaluate_throws_early)
  then have skip: "evaluate_nft masterHashes nft l = l" for l
    by (simp add: evaluate_nft_def evaluate_def)
  then have continues: "evaluate_all masterHashes (before @ nft # after) l =
      evaluate_all masterHashes after (evaluate_all masterHashes before l)" for l
    by (simp add: evaluate_all_append)
  then have without: "evaluate_all masterHashes (before @ nft # after) l =
      evaluate_all masterHashes (before @ after) l" for l
    by (simp add: evaluate_all_append)
  have keys: "fst ` set (evaluate_all masterHashes (before @ nft # after) l) = fst ` set l \<union> ?ids"
    for l
    by (simp only: without keys_evaluate_all set_append)
  have run: "runCurator w = runCurator (w\<lparr>getNftsForContract := Inr (before @ after)\<rparr>)"
    if tokens: "getNftsForContract w = Inr (before @ nft # after)"
      and hashes: "master_hashes w = masterHashes"
  proof (cases w rule: runCurator_cases)
    case (mkdir e')
    then show ?thesis by (simp add: runCurator_aborts)
  next
    case (null e')
    then show ?thesis by (simp add: runCurator_null)
  next
    case (iterator previous' e')
    with tokens show ?thesis by simp
  next
    case (completes previous' allNfts)
    let ?w' = "w\<lparr>getNftsForContract := Inr (before @ after)\<rparr>"
    from completes have "dir_exists ?w' \<or> mkdirSync ?w' = None"
      and "ToObject (getCurrentCensoredList (JSON_parse ?w') (gist_get ?w')) = Inr previous'"
      and "getNftsForContract ?w' = Inr (before @ after)"
      by simp_all
    from runCurator_completes [OF this]
      runCurator_completes [OF completes(1,2) tokens] hashes
    show ?thesis
      by (simp add: without)
  qed
  have ends: "fst ` set (rebuilt (runCurator w)) = ?ids \<and>
      fatal (runCurator w) =
        (if list_changed previous (rebuilt (runCurator w)) then axios_patch w else None)"
    if tokens: "getNftsForContract w = Inr (before @ nft # after)"
      and hashes: "master_hashes w = masterHashes"
      and dir: "dir_exists w \<or> mkdirSync w = None"
      and prev: "ToObject (getCurrentCensoredList (JSON_parse w) (gist_get w)) = Inr previous"
  proof -
    have new: "rebuilt (runCurator w) = evaluate_all masterHashes (before @ nft # after) []"
      by (simp add: runCurator_completes [OF dir prev tokens] hashes)
    have "fst ` set (evaluate_all masterHashes (before @ nft # after) []) = ?ids"
      by (simp only: keys [of "[]"]) simp
    moreover have "fatal (runCurator w) =
        (if list_changed previous (evaluate_all masterHashes (before @ nft # after) [])
         then axios_patch w else None)"
      by (simp add: runCurator_completes [OF dir prev tokens] hashes)
    ultimately show ?thesis
      by (simp only: new)
  qed
  show ?thesis
  proof (intro conjI impI)
    show "hash_live_image nft = Inl e"
      by (rule early)
    show "evaluate_nft masterHashes nft l = l"
      by (rule skip)
    show "evaluate_all masterHashes (before @ nft # after) l =
        evaluate_all masterHashes after (evaluate_all masterHashes before l)"
      by (rule continues)
    show "fst ` set (evaluate_all masterHashes (before @ nft # after) l) = fst ` set l \<union> ?ids"
      by (rule keys)
    assume tokens: "getNftsForContract w = Inr (before @ nft # after)"
      and hashes: "master_hashes w = masterHashes"
    show "runCurator w = runCurator (w\<lparr>getNftsForContract := Inr (before @ after)\<rparr>)"
      by (rule run [OF tokens hashes])
    assume dir: "dir_exists w \<or> mkdirSync w = None"
      and prev: "ToObject (getCurrentCensoredList (JSON_parse w) (gist_get w)) = Inr previous"
    show "fst ` set (rebuilt (runCurator w)) = ?ids"
      by (rule ends [OF tokens hashes dir prev, THEN conjunct1])
    show "fatal (runCurator w) =
        (if list_changed previous (rebuilt (runCurator w)) then axios_patch w else None)"
      by (rule ends [OF tokens hashes dir prev, THEN conjunct2])
  qed
qed

theorem failed_token_is_skipped_witness:
  "evaluate example_hashes
     ((example_token (js ''9'') (Inr (js ''0000000000000000''))) \<lparr>axios_get := Inl RequestError\<rparr>) [] =
     Inl RequestError \<and>
   hash_live_image
     ((example_token (js ''9'') (Inr (js ''0000000000000000''))) \<lparr>axios_get := Inl RequestError\<rparr>) =
     Inl RequestError \<and>
   evaluate_nft example_hashes
     ((example_token (js ''9'') (Inr (js ''0000000000000000''))) \<lparr>axios_get := Inl RequestError\<rparr>)
     [(js ''5'', True)] = [(js ''5'', True)] \<and>
   js ''12'' \<in> fst ` set (evaluate_all example_hashes
     ([example_token (js ''5'') (Inr (js ''0000000000111000''))] @
      (example_token (js ''9'') (Inr (js ''0000000000000000''))) \<lparr>axios_get := Inl RequestError\<rparr> #
      [example_token (js ''12'') (Inr (js ''0000000000000000''))]) []) \<and>
   js ''9'' \<notin> fst ` set (evaluate_all example_hashes
     ([example_token (js ''5'') (Inr (js ''0000000000111000''))] @
      (example_token (js ''9'') (Inr (js ''0000000000000000''))) \<lparr>axios_get := Inl RequestError\<rparr> #
      [example_token (js ''12'') (Inr (js ''0000000000000000''))]) []) \<and>
   runCurator (example_world (published_ids [])
     ([example_token (js ''5'') (Inr (js ''0000000000111000''))] @
      (example_token (js ''9'') (Inr (js ''0000000000000000''))) \<lparr>axios_get := Inl RequestError\<rparr> #
      [example_token (js ''12'') (Inr (js ''0000000000000000''))])) =
   runCurator (example_world (published_ids [])
     ([example_token (js ''5'') (Inr (js ''0000000000111000''))] @
      [example_token (js ''12'') (Inr (js ''0000000000000000''))])) \<and>
   js ''12'' \<in> fst ` set (rebuilt (runCurator (example_world (published_ids [])
     ([example_token (js ''5'') (Inr (js ''0000000000111000''))] @
      (example_token (js ''9'') (Inr (js ''0000000000000000''))) \<lparr>axios_get := Inl RequestError\<rparr> #
      [example_token (js ''12'') (Inr (js ''0000000000000000''))])))) \<and>
   fatal (runCurator (example_world (published_ids [])
     ([example_token (js ''5'') (Inr (js ''0000000000111000''))] @
      (example_token (js ''9'') (Inr (js ''0000000000000000''))) \<lparr>axios_get := Inl RequestError\<rparr> #
      [example_token (js ''12'') (Inr (js ''0000000000000000''))]))) = None"
proof -
  let ?bad = "(example_token (js ''9'') (Inr (js ''0000000000000000'')))
      \<lparr>axios_get := Inl RequestError\<rparr>"
  let ?t5 = "example_token (js ''5'') (Inr (js ''0000000000111000''))"
  let ?t12 = "example_token (js ''12'') (Inr (js ''0000000000000000''))"
  let ?w = "example_world (published_ids []) ([?t5] @ ?bad # [?t12])"
  let ?matched = "\<lambda>t. tokenId t \<noteq> js ''__proto__'' \<and>
      (\<exists>newHash found. hash_live_image t = Inr (Some newHash) \<and>
         find_match newHash (own_properties example_hashes) = Inr (Some found))"
  have bad: "evaluate example_hashes ?bad [] = Inl RequestError"
    by (simp add: example_defs token_defs)
  have tokens: "getNftsForContract ?w = Inr ([?t5] @ ?bad # [?t12])"
    and hashes: "master_hashes ?w = example_hashes"
    and dir: "dir_exists ?w \<or> mkdirSync ?w = None"
    by (simp_all add: example_world_def)
  have prev: "ToObject (getCurrentCensoredList (JSON_parse ?w) (gist_get ?w)) = Inr []"
    using example_ToObject [of "[]"] by simp
  have w': "?w\<lparr>getNftsForContract := Inr ([?t5] @ [?t12])\<rparr> =
      example_world (published_ids []) ([?t5] @ [?t12])"
    by (simp add: example_world_def)
  have m12: "?matched ?t12"
    by (simp add: example_defs token_defs)
  have ids: "tokenId ?t5 = js ''5''" "tokenId ?t12 = js ''12''"
    by (simp_all add: example_token_def)
  have ne: "js ''5'' \<noteq> js ''9''" "js ''12'' \<noteq> js ''9''"
    by (simp_all add: js_def)
  note t = failed_token_is_skipped [OF bad, of "[]" "[?t5]" "[?t12]" ?w "[]"]
  note t' = failed_token_is_skipped [OF bad, of "[(js ''5'', True)]" "[?t5]" "[?t12]" ?w "[]"]
  have mem12: "?t12 \<in> set [?t5] \<union> set [?t12]"
    by simp
  from t have keys: "fst ` set (evaluate_all example_hashes ([?t5] @ ?bad # [?t12]) []) =
      fst ` set ([] :: bool js_object) \<union>
      {tokenId t |t. t \<in> set [?t5] \<union> set [?t12] \<and> ?matched t}"
    by (elim conjE)
  from mem12 m12 have added: "tokenId ?t12 \<in>
      {tokenId t |t. t \<in> set [?t5] \<union> set [?t12] \<and> ?matched t}"
    by blast
  then have in12: "js ''12'' \<in> fst ` set (evaluate_all example_hashes ([?t5] @ ?bad # [?t12]) [])"
    unfolding keys ids by simp
  have "js ''9'' \<notin> {tokenId t |t. t \<in> set [?t5] \<union> set [?t12] \<and> ?matched t}"
    using ids ne by auto
  then have out9: "js ''9'' \<notin> fst ` set (evaluate_all example_hashes ([?t5] @ ?bad # [?t12]) [])"
    unfolding keys by simp
  note r = t [THEN conjunct2, THEN conjunct2, THEN conjunct2, THEN conjunct2,
      THEN mp, OF tokens, THEN mp, OF hashes]
  from r have run: "runCurator ?w = runCurator (?w\<lparr>getNftsForContract := Inr ([?t5] @ [?t12])\<rparr>)"
    by (rule conjunct1)
  note r' = r [THEN conjunct2, THEN mp, OF dir, THEN mp, OF prev]
  from r' have rkeys: "fst ` set (rebuilt (runCurator ?w)) =
      {tokenId t |t. t \<in> set [?t5] \<union> set [?t12] \<and> ?matched t}"
    by (rule conjunct1)
  from r' have fatal: "fatal (runCurator ?w) =
      (if list_changed ([] :: json_value js_object) (rebuilt (runCurator ?w))
       then axios_patch ?w else None)"
    by (rule conjunct2)
  from added have rin12: "js ''12'' \<in> fst ` set (rebuilt (runCurator ?w))"
    unfolding rkeys ids .
  have "axios_patch ?w = None"
    by (simp add: example_world_def)
  with fatal have nofatal: "fatal (runCurator ?w) = None"
    by simp
  from t have early: "hash_live_image ?bad = Inl RequestError"
    by (rule conjunct1)
  from t' have skip: "evaluate_nft example_hashes ?bad [(js ''5'', True)] = [(js ''5'', True)]"
    by (elim conjE)
  from bad early skip in12 out9 run [unfolded w'] rin12 nofatal show ?thesis
    by (intro conjI)
qed

text \<open>
  Claim C7. A run that reaches the loop starts from the empty list and builds it from
  the enumerated tokens and the master hashes alone. It ends with exactly the ids of the
  enumerated tokens that reached the similarity check and matched a reference in this
  run (an id \<open>__proto__\<close>, which no assignment can add, apart). The rebuilt list is the
  same whatever list other than \<open>null\<close> the Gist and the parser give. An id of the
  previously published list whose tokens all fail in this run is absent from the rebuilt
  list, the comparison reports a change and the rebuilt list is sent.
\<close>

theorem rebuilt_from_scratch:
  assumes "dir_exists w \<or> mkdirSync w = None"
    and "ToObject (getCurrentCensoredList (JSON_parse w) (gist_get w)) = Inr previous"
    and "getNftsForContract w = Inr allNfts"
  shows "rebuilt (runCurator w) = evaluate_all (master_hashes w) allNfts [] \<and>
         fst ` set (rebuilt (runCurator w)) =
           {tokenId nft |nft. nft \<in> set allNfts \<and> tokenId nft \<noteq> js ''__proto__'' \<and>
              (\<exists>newHash found. hash_live_image nft = Inr (Some newHash) \<and>
                 find_match newHash (own_properties (master_hashes w)) = Inr (Some found))} \<and>
         ((\<forall>nft\<in>set allNfts. tokenId nft \<noteq> js ''__proto__'') \<longrightarrow>
            fst ` set (rebuilt (runCurator w)) =
              {tokenId nft |nft. nft \<in> set allNfts \<and>
                 (\<exists>newHash found. hash_live_image nft = Inr (Some newHash) \<and>
                    find_match newHash (own_properties (master_hashes w)) = Inr (Some found))}) \<and>
         (ToObject (getCurrentCensoredList parse response) = Inr other \<longrightarrow>
            rebuilt (runCurator (w\<lparr>gist_get := response, JSON_parse := parse\<rparr>)) =
              rebuilt (runCurator w)) \<and>
         (k \<in> fst ` set previous \<longrightarrow>
          (\<forall>nft\<in>set allNfts. tokenId nft = k \<longrightarrow> (\<exists>e. hash_live_image nft = Inl e)) \<longrightarrow>
            k \<notin> fst ` set (rebuilt (runCurator w)) \<and>
            list_changed previous (rebuilt (runCurator w)) \<and>
            patched (runCurator w) = Some (rebuilt (runCurator w)))"
proof -
  let ?new = "evaluate_all (master_hashes w) allNfts []"
  let ?w' = "w\<lparr>gist_get := response, JSON_parse := parse\<rparr>"
  have new: "rebuilt (runCurator w) = ?new"
    by (simp add: runCurator_completes [OF assms])
  have keys: "fst ` set ?new =
           {tokenId nft |nft. nft \<in> set allNfts \<and> tokenId nft \<noteq> js ''__proto__'' \<and>
              (\<exists>newHash found. hash_live_image nft = Inr (Some newHash) \<and>
                 find_match newHash (own_properties (master_hashes w)) = Inr (Some found))}"
    by (simp add: keys_evaluate_all)
  have plain: "fst ` set ?new =
           {tokenId nft |nft. nft \<in> set allNfts \<and>
              (\<exists>newHash found. hash_live_image nft = Inr (Some newHash) \<and>
                 find_match newHash (own_properties (master_hashes w)) = Inr (Some found))}"
    if "\<forall>nft\<in>set allNfts. tokenId nft \<noteq> js ''__proto__''"
    unfolding keys using that by auto
  have same: "rebuilt (runCurator ?w') = ?new"
    if other: "ToObject (getCurrentCensoredList parse response) = Inr other"
  proof -
    from assms(1,3) other have "dir_exists ?w' \<or> mkdirSync ?w' = None"
      and "ToObject (getCurrentCensoredList (JSON_parse ?w') (gist_get ?w')) = Inr other"
      and "getNftsForContract ?w' = Inr allNfts"
      by simp_all
    from runCurator_completes [OF this] show ?thesis
      by simp
  qed
  have dropped: "k \<notin> fst ` set ?new \<and> list_changed previous ?new \<and>
      patched (runCurator w) = Some ?new"
    if old: "k \<in> fst ` set previous"
      and fails: "\<forall>nft\<in>set allNfts. tokenId nft = k \<longrightarrow> (\<exists>e. hash_live_image nft = Inl e)"
  proof -
    from fails have absent: "k \<notin> fst ` set ?new"
      unfolding keys by auto
    from list_changed_key_missing [OF old absent]
    have changed: "list_changed previous ?new" .
    with absent show ?thesis
      by (simp add: runCurator_completes [OF assms])
  qed
  from keys plain same dropped show ?thesis
    unfolding new by blast
qed

theorem rebuilt_from_scratch_witness:
  "(dir_exists (example_world (published_ids [js ''9''])
      [(example_token (js ''9'') (Inr (js ''0000000000000000''))) \<lparr>axios_get := Inl RequestError\<rparr>,
       example_token (js ''12'') (Inr (js ''0000000000000000''))]) \<or>
    mkdirSync (example_world (published_ids [js ''9''])
      [(example_token (js ''9'') (Inr (js ''0000000000000000''))) \<lparr>axios_get := Inl RequestError\<rparr>,
       example_token (js ''12'') (Inr (js ''0000000000000000''))]) = None) \<and>
   ToObject (getCurrentCensoredList
      (JSON_parse (example_world (published_ids [js ''9''])
        [(example_token (js ''9'') (Inr (js ''0000000000000000''))) \<lparr>axios_get := Inl RequestError\<rparr>,
         example_token (js ''12'') (Inr (js ''0000000000000000''))]))
      (gist_get (example_world (published_ids [js ''9''])
        [(example_token (js ''9'') (Inr (js ''0000000000000000''))) \<lparr>axios_get := Inl RequestError\<rparr>,
         example_token (js ''12'') (Inr (js ''0000000000000000''))]))) =
     Inr [(js ''9'', JSON_boolean True)] \<and>
   js ''9'' \<in> fst ` set [(js ''9'', JSON_boolean True)] \<and>
   hash_live_image
     ((example_token (js ''9'') (Inr (js ''0000000000000000''))) \<lparr>axios_get := Inl RequestError\<rparr>) =
     Inl RequestError \<and>
   js ''9'' \<notin> fst ` set (rebuilt (runCurator (example_world (published_ids [js ''9''])
      [(example_token (js ''9'') (Inr (js ''0000000000000000''))) \<lparr>axios_get := Inl RequestError\<rparr>,
       example_token (js ''12'') (Inr (js ''0000000000000000''))]))) \<and>
   js ''12'' \<in> fst ` set (rebuilt (runCurator (example_world (published_ids [js ''9''])
      [(example_token (js ''9'') (Inr (js ''0000000000000000''))) \<lparr>axios_get := Inl RequestError\<rparr>,
       example_token (js ''12'') (Inr (js ''0000000000000000''))]))) \<and>
   patched (runCurator (example_world (published_ids [js ''9''])
      [(example_token (js ''9'') (Inr (js ''0000000000000000''))) \<lparr>axios_get := Inl RequestError\<rparr>,
       example_token (js ''12'') (Inr (js ''0000000000000000''))])) =
   Some (rebuilt (runCurator (example_world (published_ids [js ''9''])
      [(example_token (js ''9'') (Inr (js ''0000000000000000''))) \<lparr>axios_get := Inl RequestError\<rparr>,
       example_token (js ''12'') (Inr (js ''0000000000000000''))]))) \<and>
   ToObject (getCurrentCensoredList (\<lambda>text. Inr JSON_number) (Inl RequestError)) = Inr [] \<and>
   rebuilt (runCurator ((example_world (published_ids [js ''9''])
      [(example_token (js ''9'') (Inr (js ''0000000000000000''))) \<lparr>axios_get := Inl RequestError\<rparr>,
       example_token (js ''12'') (Inr (js ''0000000000000000''))])
      \<lparr>gist_get := Inl RequestError, JSON_parse := (\<lambda>text. Inr JSON_number)\<rparr>)) =
   rebuilt (runCurator (example_world (published_ids [js ''9''])
      [(example_token (js ''9'') (Inr (js ''0000000000000000''))) \<lparr>axios_get := Inl RequestError\<rparr>,
       example_token (js ''12'') (Inr (js ''0000000000000000''))]))"
proof -
  let ?t9 = "(example_token (js ''9'') (Inr (js ''0000000000000000'')))
      \<lparr>axios_get := Inl RequestError\<rparr>"
  let ?t12 = "example_token (js ''12'') (Inr (js ''0000000000000000''))"
  let ?w = "example_world (published_ids [js ''9'']) [?t9, ?t12]"
  let ?p = "\<lambda>text :: js_string. (Inr JSON_number :: js_error + json_value)"
  have dir: "dir_exists ?w \<or> mkdirSync ?w = None"
    and tokens: "getNftsForContract ?w = Inr [?t9, ?t12]"
    and hashes: "master_hashes ?w = example_hashes"
    by (simp_all add: example_world_def)
  have prev: "ToObject (getCurrentCensoredList (JSON_parse ?w) (gist_get ?w)) =
      Inr [(js ''9'', JSON_boolean True)]"
    using example_ToObject [of "[js ''9'']"] by simp
  have old: "js ''9'' \<in> fst ` set [(js ''9'', JSON_boolean True)]"
    by simp
  have t9: "hash_live_image ?t9 = Inl RequestError"
    by (simp add: example_defs token_defs)
  have id12: "tokenId ?t12 = js ''12''"
    by (simp add: example_token_def)
  have "js ''12'' \<noteq> js ''9''"
    by (simp add: js_def)
  with t9 id12 have fails: "\<forall>nft\<in>set [?t9, ?t12]. tokenId nft = js ''9'' \<longrightarrow>
      (\<exists>e. hash_live_image nft = Inl e)"
    by simp
  have m12: "tokenId ?t12 \<noteq> js ''__proto__'' \<and>
      (\<exists>newHash found. hash_live_image ?t12 = Inr (Some newHash) \<and>
         find_match newHash (own_properties example_hashes) = Inr (Some found))"
    by (simp add: example_defs token_defs)
  have other: "ToObject (getCurrentCensoredList ?p (Inl RequestError)) = Inr []"
    by (simp add: getCurrentCensoredList_def fetch_censored_list_def ToObject_def)
  note t = rebuilt_from_scratch [OF dir prev tokens, where response = "Inl RequestError"
      and parse = ?p and k = "js ''9''" and other = "[]"]
  have mem12: "?t12 \<in> set [?t9, ?t12]"
    by simp
  from t have keys: "fst ` set (rebuilt (runCurator ?w)) =
      {tokenId nft |nft. nft \<in> set [?t9, ?t12] \<and> tokenId nft \<noteq> js ''__proto__'' \<and>
         (\<exists>newHash found. hash_live_image nft = Inr (Some newHash) \<and>
            find_match newHash (own_properties (master_hashes ?w)) = Inr (Some found))}"
    by (elim conjE)
  from mem12 m12 have "tokenId ?t12 \<in>
      {tokenId nft |nft. nft \<in> set [?t9, ?t12] \<and> tokenId nft \<noteq> js ''__proto__'' \<and>
         (\<exists>newHash found. hash_live_image nft = Inr (Some newHash) \<and>
            find_match newHash (own_properties example_hashes) = Inr (Some found))}"
    by blast
  then have in12: "js ''12'' \<in> fst ` set (rebuilt (runCurator ?w))"
    unfolding keys hashes id12 .
  note d = t [THEN conjunct2, THEN conjunct2, THEN conjunct2, THEN conjunct2,
      THEN mp, OF old, THEN mp, OF fails]
  from d have out9: "js ''9'' \<notin> fst ` set (rebuilt (runCurator ?w))"
    by (rule conjunct1)
  from d have sent: "patched (runCurator ?w) = Some (rebuilt (runCurator ?w))"
    by (elim conjE)
  note same = t [THEN conjunct2, THEN conjunct2, THEN conjunct2, THEN conjunct1, THEN mp, OF other]
  from dir prev old t9 out9 in12 sent other same show ?thesis
    by (intro conjI)
qed

text \<open>
  Claim C6. \<open>axios.patch\<close> is called only when the comparison reports a change, and
  then with the rebuilt list; when the sorted keys of the fetched list and of the rebuilt
  list are equal, no request is made. A run that stops at the first
  \<open>Object.keys(currentCensoredList)\<close>, the fetched document being \<open>null\<close>, makes no
  request either.
\<close>

theorem patch_only_when_changed:
  "(patched (runCurator w) \<noteq> None \<longrightarrow>
      patched (runCurator w) = Some (rebuilt (runCurator w)) \<and>
      (\<exists>previous. ToObject (getCurrentCensoredList (JSON_parse w) (gist_get w)) = Inr previous \<and>
         list_changed previous (rebuilt (runCurator w)))) \<and>
   (ToObject (getCurrentCensoredList (JSON_parse w) (gist_get w)) = Inr previous \<longrightarrow>
    sort (Object_keys previous) = sort (Object_keys (rebuilt (runCurator w))) \<longrightarrow>
      patched (runCurator w) = None) \<and>
   (ToObject (getCurrentCensoredList (JSON_parse w) (gist_get w)) = Inl e \<longrightarrow>
      patched (runCurator w) = None)"
proof (cases w rule: runCurator_cases)
  case (mkdir e')
  then show ?thesis by (simp add: runCurator_aborts)
next
  case (null e')
  then show ?thesis by (simp add: runCurator_null)
next
  case (iterator previous' e')
  then show ?thesis by (simp add: runCurator_no_tokens)
next
  case (completes previous' allNfts)
  show ?thesis
    by (simp add: runCurator_completes [OF completes] completes(2) list_changed_def
        JSON_stringify_inj)
qed

theorem patch_only_when_changed_witness:
  "ToObject (getCurrentCensoredList
       (JSON_parse (example_world (published_ids [js ''5''])
          [example_token (js ''5'') (Inr (js ''0000000000111000'')),
           example_token (js ''7'') (Inr (js ''0000111111111000''))]))
       (gist_get (example_world (published_ids [js ''5''])
          [example_token (js ''5'') (Inr (js ''0000000000111000'')),
           example_token (js ''7'') (Inr (js ''0000111111111000''))]))) =
     Inr [(js ''5'', JSON_boolean True)] \<and>
   sort (Object_keys [(js ''5'', JSON_boolean True)]) =
   sort (Object_keys (rebuilt (runCurator (example_world (published_ids [js ''5''])
          [example_token (js ''5'') (Inr (js ''0000000000111000'')),
           example_token (js ''7'') (Inr (js ''0000111111111000''))])))) \<and>
   patched (runCurator (example_world (published_ids [js ''5''])
          [example_token (js ''5'') (Inr (js ''0000000000111000'')),
           example_token (js ''7'') (Inr (js ''0000111111111000''))])) = None \<and>
   patched (runCurator ((example_world (published_ids [])
       [example_token (js ''12'') (Inr (js ''0000000000000000''))])
     \<lparr>gist_get := Inl RequestError\<rparr>)) \<noteq> None \<and>
   patched (runCurator ((example_world (published_ids [])
       [example_token (js ''12'') (Inr (js ''0000000000000000''))])
     \<lparr>gist_get := Inl RequestError\<rparr>)) =
   Some (rebuilt (runCurator ((example_world (published_ids [])
       [example_token (js ''12'') (Inr (js ''0000000000000000''))])
     \<lparr>gist_get := Inl RequestError\<rparr>))) \<and>
   ToObject (getCurrentCensoredList
       (JSON_parse (example_world JSON_null
          [example_token (js ''12'') (Inr (js ''0000000000000000''))]))
       (gist_get (example_world JSON_null
          [example_token (js ''12'') (Inr (js ''0000000000000000''))]))) = Inl TypeError \<and>
   patched (runCurator (example_world JSON_null
          [example_token (js ''12'') (Inr (js ''0000000000000000''))])) = None"
proof -
  let ?A = "example_world (published_ids [js ''5''])
          [example_token (js ''5'') (Inr (js ''0000000000111000'')),
           example_token (js ''7'') (Inr (js ''0000111111111000''))]"
  let ?B = "(example_world (published_ids [])
       [example_token (js ''12'') (Inr (js ''0000000000000000''))])
     \<lparr>gist_get := Inl RequestError\<rparr>"
  let ?N = "example_world JSON_null [example_token (js ''12'') (Inr (js ''0000000000000000''))]"
  have prevA: "ToObject (getCurrentCensoredList (JSON_parse ?A) (gist_get ?A)) =
      Inr [(js ''5'', JSON_boolean True)]"
    using example_ToObject [of "[js ''5'']"] by simp
  have same: "sort (Object_keys [(js ''5'', JSON_boolean True)]) =
      sort (Object_keys (rebuilt (runCurator ?A)))"
    by (simp add: example_A Object_keys_def own_properties_def)
  have sent: "patched (runCurator ?B) \<noteq> None"
    by (simp add: example_B)
  have prevN: "ToObject (getCurrentCensoredList (JSON_parse ?N) (gist_get ?N)) = Inl TypeError"
    by (simp add: example_published ToObject_def)
  note a = patch_only_when_changed [of ?A "[(js ''5'', JSON_boolean True)]" TypeError]
  note b = patch_only_when_changed [of ?B "[]" TypeError]
  note n = patch_only_when_changed [of ?N "[]" TypeError]
  from a [THEN conjunct2, THEN conjunct1, THEN mp, OF prevA, THEN mp, OF same]
  have quiet: "patched (runCurator ?A) = None" .
  from b [THEN conjunct1, THEN mp, OF sent]
  have payload: "patched (runCurator ?B) = Some (rebuilt (runCurator ?B))"
    by (rule conjunct1)
  from n [THEN conjunct2, THEN conjunct2, THEN mp, OF prevN]
  have stopped: "patched (runCurator ?N) = None" .
  from prevA same quiet sent payload prevN stopped show ?thesis
    by (intro conjI)
qed

text \<open>
  Claim C9. \<open>getCurrentCensoredList\<close> returns the empty list whenever its \<open>try\<close> block
  throws: when the request fails, when the response has no files, when the content does
  not parse. It also returns the empty list when the file is absent from the response.
  A run whose fetch fails is the run of the same world with an empty Gist: it does not
  abort.
\<close>

theorem fetch_failure_gives_empty_list:
  "(fetch_censored_list parse response = Inl e \<longrightarrow>
      getCurrentCensoredList parse response = JSON_object []) \<and>
   getCurrentCensoredList parse (Inl e) = JSON_object [] \<and>
   getCurrentCensoredList parse (Inr \<lparr>files = None\<rparr>) = JSON_object [] \<and>
   (gist_files GIST_FILENAME = None \<longrightarrow>
      getCurrentCensoredList parse (Inr \<lparr>files = Some gist_files\<rparr>) = JSON_object []) \<and>
   (parse text = Inl e \<longrightarrow>
      getCurrentCensoredList parse
        (Inr \<lparr>files = Some [GIST_FILENAME \<mapsto> \<lparr>content = Some text\<rparr>]\<rparr>) = JSON_object []) \<and>
   (fetch_censored_list (JSON_parse w) (gist_get w) = Inl e \<longrightarrow>
      runCurator w = runCurator (w\<lparr>gist_get := Inr \<lparr>files = Some Map.empty\<rparr>\<rparr>) \<and>
      ToObject (getCurrentCensoredList (JSON_parse w) (gist_get w)) = Inr [])"
proof (intro conjI impI)
  assume fails: "fetch_censored_list (JSON_parse w) (gist_get w) = Inl e"
  let ?w' = "w\<lparr>gist_get := Inr \<lparr>files = Some Map.empty\<rparr>\<rparr>"
  from fails have empty: "getCurrentCensoredList (JSON_parse w) (gist_get w) = JSON_object []"
    by (simp add: getCurrentCensoredList_def)
  have empty': "getCurrentCensoredList (JSON_parse ?w') (gist_get ?w') = JSON_object []"
    by (simp add: getCurrentCensoredList_def fetch_censored_list_def)
  from empty show prev: "ToObject (getCurrentCensoredList (JSON_parse w) (gist_get w)) = Inr []"
    by (simp add: ToObject_def)
  from empty' have prev': "ToObject (getCurrentCensoredList (JSON_parse ?w') (gist_get ?w')) = Inr []"
    by (simp add: ToObject_def)
  show "runCurator w = runCurator ?w'"
  proof (cases "dir_exists w \<or> mkdirSync w = None")
    case False
    then obtain e' where "\<not> dir_exists w" "mkdirSync w = Some e'"
      by auto
    then show ?thesis
      by (simp add: runCurator_aborts)
  next
    case dir: True
    then have dir': "dir_exists ?w' \<or> mkdirSync ?w' = None"
      by simp
    show ?thesis
    proof (cases "getNftsForContract w")
      case (Inl e')
      then have "getNftsForContract ?w' = Inl e'"
        by simp
      from runCurator_no_tokens [OF dir' prev' this] runCurator_no_tokens [OF dir prev Inl]
      show ?thesis by simp
    next
      case (Inr allNfts)
      then have "getNftsForContract ?w' = Inr allNfts"
        by simp
      from runCurator_completes [OF dir' prev' this] runCurator_completes [OF dir prev Inr]
      show ?thesis by simp
    qed
  qed
qed (simp_all add: getCurrentCensoredList_def fetch_censored_list_def)

theorem fetch_failure_gives_empty_list_witness:
  "fetch_censored_list (\<lambda>text. Inl SyntaxError) (Inl RequestError) = Inl RequestError \<and>
   getCurrentCensoredList (\<lambda>text. Inl SyntaxError) (Inl RequestError) = JSON_object [] \<and>
   Map.empty GIST_FILENAME = (None :: gist_file option) \<and>
   getCurrentCensoredList (\<lambda>text. Inl SyntaxError) (Inr \<lparr>files = Some Map.empty\<rparr>) =
     JSON_object [] \<and>
   getCurrentCensoredList (\<lambda>text. Inl SyntaxError)
     (Inr \<lparr>files = Some [GIST_FILENAME \<mapsto> \<lparr>content = Some (js ''<html>'')\<rparr>]\<rparr>) =
     JSON_object [] \<and>
   fetch_censored_list
     (JSON_parse ((example_world (published_ids [])
        [example_token (js ''12'') (Inr (js ''0000000000000000''))])
        \<lparr>gist_get := Inl RequestError\<rparr>))
     (gist_get ((example_world (published_ids [])
        [example_token (js ''12'') (Inr (js ''0000000000000000''))])
        \<lparr>gist_get := Inl RequestError\<rparr>)) = Inl RequestError \<and>
   runCurator ((example_world (published_ids [])
        [example_token (js ''12'') (Inr (js ''0000000000000000''))])
        \<lparr>gist_get := Inl RequestError\<rparr>) =
   runCurator ((example_world (published_ids [])
        [example_token (js ''12'') (Inr (js ''0000000000000000''))])
        \<lparr>gist_get := Inr \<lparr>files = Some Map.empty\<rparr>\<rparr>)"
proof -
  let ?p = "\<lambda>text :: js_string. (Inl SyntaxError :: js_error + json_value)"
  let ?B = "(example_world (published_ids [])
       [example_token (js ''12'') (Inr (js ''0000000000000000''))])
     \<lparr>gist_get := Inl RequestError\<rparr>"
  have f: "fetch_censored_list ?p (Inl RequestError) = Inl RequestError"
    by (simp add: fetch_censored_list_def)
  have m: "Map.empty GIST_FILENAME = (None :: gist_file option)"
    by simp
  have s: "?p (js ''<html>'') = Inl SyntaxError"
    by simp
  have fB: "fetch_censored_list (JSON_parse ?B) (gist_get ?B) = Inl RequestError"
    by (simp add: fetch_censored_list_def)
  have B': "?B\<lparr>gist_get := Inr \<lparr>files = Some Map.empty\<rparr>\<rparr> =
      (example_world (published_ids [])
        [example_token (js ''12'') (Inr (js ''0000000000000000''))])
        \<lparr>gist_get := Inr \<lparr>files = Some Map.empty\<rparr>\<rparr>"
    by simp
  note t = fetch_failure_gives_empty_list [of ?p "Inl RequestError" RequestError Map.empty
      "js ''<html>''" ?B]
  note t' = fetch_failure_gives_empty_list [of ?p "Inl RequestError" SyntaxError Map.empty
      "js ''<html>''" ?B]
  from t have c2: "getCurrentCensoredList ?p (Inl RequestError) = JSON_object []"
    by (elim conjE)
  from t [THEN conjunct2, THEN conjunct2, THEN conjunct2, THEN conjunct1, THEN mp, OF m]
  have c4: "getCurrentCensoredList ?p (Inr \<lparr>files = Some Map.empty\<rparr>) = JSON_object []" .
  from t' [THEN conjunct2, THEN conjunct2, THEN conjunct2, THEN conjunct2, THEN conjunct1,
      THEN mp, OF s]
  have c5: "getCurrentCensoredList ?p
     (Inr \<lparr>files = Some [GIST_FILENAME \<mapsto> \<lparr>content = Some (js ''<html>'')\<rparr>]\<rparr>) =
     JSON_object []" .
  from t [THEN conjunct2, THEN conjunct2, THEN conjunct2, THEN conjunct2, THEN conjunct2,
      THEN mp, OF fB, THEN conjunct1]
  have c6: "runCurator ?B = runCurator (?B\<lparr>gist_get := Inr \<lparr>files = Some Map.empty\<rparr>\<rparr>)" .
  from f c2 m c4 c5 fB c6 [unfolded B'] show ?thesis
    by (intro conjI)
qed

end
